theory Spec2Isabelle
  imports Complex_Main
begin

section \<open>Numbers, constants and small helpers\<close>

text \<open>
  The program of \<^verbatim>\<open>Branch_Bound.cpp\<close> computes with C++ \<^verbatim>\<open>double\<close>. The model uses
  exact rationals (\<^typ>\<open>rat\<close>) in their place: every arithmetic operation is the exact one,
  rounding is not modelled, and the decimal literals of the source (\<^verbatim>\<open>1e-10\<close>,
  \<^verbatim>\<open>1e-6\<close>, \<^verbatim>\<open>1e30\<close>, \<^verbatim>\<open>10000\<close>) stand for their decimal values.
  The C++ \<^verbatim>\<open>int\<close> indices are natural numbers where the source only counts upwards
  from zero, and integers where the source uses the sentinel \<^verbatim>\<open>-1\<close>.
  Console output is not modelled.
\<close>

definition EPSILON :: rat where
  "EPSILON = 1 / 10000000000"

definition BIG_M :: rat where
  "BIG_M = 10000"

text \<open>\<^verbatim>\<open>std::to_string\<close> on a non-negative and on a signed integer.\<close>

function to_string :: "nat \<Rightarrow> string" where
  "to_string n =
     (if n < 10 then [''0123456789'' ! n]
      else to_string (n div 10) @ [''0123456789'' ! (n mod 10)])"
  by pat_completeness auto
termination
  by (relation "measure id") auto

declare to_string.simps [simp del]

definition to_string_int :: "int \<Rightarrow> string" where
  "to_string_int i = (if i < 0 then ''-'' @ to_string (nat (- i)) else to_string (nat i))"

text \<open>The write \<^verbatim>\<open>t[i][j] = v\<close> on a vector of vectors.\<close>

definition set_cell :: "rat list list \<Rightarrow> nat \<Rightarrow> nat \<Rightarrow> rat \<Rightarrow> rat list list" where
  "set_cell T i j v = T[i := (T ! i)[j := v]]"

section \<open>The simplex solver (class SimplexSolver)\<close>

record SimplexSolver =
  numVariables :: nat
  numConstraints :: nat
  objective :: "rat list"
  constraints :: "rat list list"
  rhs :: "rat list"
  constraintTypes :: "int list"
  isMaximization :: bool
  tableau :: "rat list list"
  varNames :: "string list"
  basicVars :: "nat list"
  isFeasible :: bool
  isUnbounded :: bool

text \<open>The constructor: the problem is copied, the flags start as feasible and bounded.\<close>

definition SimplexSolver_new ::
  "rat list \<Rightarrow> rat list list \<Rightarrow> rat list \<Rightarrow> int list \<Rightarrow> bool \<Rightarrow> SimplexSolver" where
  "SimplexSolver_new obj cons r types isMax =
     \<lparr> numVariables = length obj, numConstraints = length cons,
       objective = obj, constraints = cons, rhs = r, constraintTypes = types,
       isMaximization = isMax, tableau = [], varNames = [], basicVars = [],
       isFeasible = True, isUnbounded = False \<rparr>"

subsection \<open>createInitialTableau\<close>

text \<open>
  The loops of the source are written as recursive functions over the list of indices
  they run through, with the variables they update as arguments.
  \<open>copyCoefficients\<close> is the inner loop of lines 80 to 82.
\<close>

fun copyCoefficients :: "rat list list \<Rightarrow> rat list list \<Rightarrow> nat \<Rightarrow> nat list \<Rightarrow> rat list list" where
  "copyCoefficients T cons i [] = T"
| "copyCoefficients T cons i (j # js) =
     copyCoefficients (set_cell T i j (cons ! i ! j)) cons i js"

text \<open>
  The row loop (lines 79 to 107): the coefficients, then the slack, surplus and
  artificial columns of the row by its relation code (1 is \<^verbatim>\<open><=\<close>, 2 is \<^verbatim>\<open>>=\<close>,
  anything else is treated as \<^verbatim>\<open>=\<close>), then the right-hand side, which is copied as
  it is. The three running column indices are local variables of the source. Each row
  appends the names of its own columns to \<^verbatim>\<open>varNames\<close>.
\<close>

fun fillRows :: "nat list \<Rightarrow> nat \<Rightarrow> SimplexSolver \<Rightarrow> nat \<Rightarrow> nat \<Rightarrow> nat \<Rightarrow> SimplexSolver" where
  "fillRows [] numCols s slackIdx surplusIdx artificialIdx = s"
| "fillRows (i # is) numCols s slackIdx surplusIdx artificialIdx =
     (if constraintTypes s ! i = 1 then
        fillRows is numCols
          (s\<lparr>tableau :=
               set_cell
                 (set_cell
                    (copyCoefficients (tableau s) (constraints s) i [0..<numVariables s])
                    i slackIdx 1)
                 i (numCols - 1) (rhs s ! i),
             varNames := varNames s @ [''s'' @ to_string (i + 1)],
             basicVars := basicVars s @ [slackIdx]\<rparr>)
          (slackIdx + 1) surplusIdx artificialIdx
      else if constraintTypes s ! i = 2 then
        fillRows is numCols
          (s\<lparr>tableau :=
               set_cell
                 (set_cell
                    (set_cell
                       (copyCoefficients (tableau s) (constraints s) i [0..<numVariables s])
                       i surplusIdx (- 1))
                    i artificialIdx 1)
                 i (numCols - 1) (rhs s ! i),
             varNames := varNames s @ [''e'' @ to_string (i + 1), ''a'' @ to_string (i + 1)],
             basicVars := basicVars s @ [artificialIdx]\<rparr>)
          slackIdx (surplusIdx + 1) (artificialIdx + 1)
      else
        fillRows is numCols
          (s\<lparr>tableau :=
               set_cell
                 (set_cell
                    (copyCoefficients (tableau s) (constraints s) i [0..<numVariables s])
                    i artificialIdx 1)
                 i (numCols - 1) (rhs s ! i),
             varNames := varNames s @ [''a'' @ to_string (i + 1)],
             basicVars := basicVars s @ [artificialIdx]\<rparr>)
          slackIdx surplusIdx (artificialIdx + 1))"

text \<open>The objective row (lines 109 to 116).\<close>

fun fillObjective :: "rat list list \<Rightarrow> bool \<Rightarrow> rat list \<Rightarrow> nat \<Rightarrow> nat list \<Rightarrow> rat list list" where
  "fillObjective T isMax obj r [] = T"
| "fillObjective T isMax obj r (j # js) =
     fillObjective (set_cell T r j (if isMax then - (obj ! j) else obj ! j)) isMax obj r js"

text \<open>
  The Big-M loop (lines 118 to 140). For a row of relation 2 or 3, \<open>firstOne\<close> looks
  through the artificial block for the first column holding exactly 1 in that row; that
  column of the objective row gets the penalty, and \<open>foldPenalty\<close> takes the row, scaled
  by \<^verbatim>\<open>BIG_M\<close>, from the objective row (or adds it, when minimizing).
\<close>

fun firstOne :: "rat list \<Rightarrow> nat list \<Rightarrow> nat option" where
  "firstOne row [] = None"
| "firstOne row (j # js) = (if row ! j = 1 then Some j else firstOne row js)"

fun foldPenalty :: "rat list list \<Rightarrow> bool \<Rightarrow> nat \<Rightarrow> nat \<Rightarrow> nat list \<Rightarrow> rat list list" where
  "foldPenalty T isMax r i [] = T"
| "foldPenalty T isMax r i (k # ks) =
     foldPenalty
       (set_cell T r k
          (if isMax then T ! r ! k - BIG_M * (T ! i ! k) else T ! r ! k + BIG_M * (T ! i ! k)))
       isMax r i ks"

fun penalize :: "rat list list \<Rightarrow> bool \<Rightarrow> nat \<Rightarrow> nat \<Rightarrow> nat \<Rightarrow> nat option \<Rightarrow> rat list list" where
  "penalize T isMax numRows numCols i None = T"
| "penalize T isMax numRows numCols i (Some j) =
     foldPenalty (set_cell T (numRows - 1) j (if isMax then BIG_M else - BIG_M))
       isMax (numRows - 1) i [0..<numCols]"

fun bigMRows ::
  "rat list list \<Rightarrow> bool \<Rightarrow> int list \<Rightarrow> nat \<Rightarrow> nat \<Rightarrow> nat \<Rightarrow> nat \<Rightarrow> nat list \<Rightarrow> rat list list" where
  "bigMRows T isMax types artStart totalVars numRows numCols [] = T"
| "bigMRows T isMax types artStart totalVars numRows numCols (i # is) =
     bigMRows
       (if types ! i = 2 \<or> types ! i = 3
        then penalize T isMax numRows numCols i (firstOne (T ! i) [artStart..<totalVars])
        else T)
       isMax types artStart totalVars numRows numCols is"

definition numSlackOf :: "int list \<Rightarrow> nat" where
  "numSlackOf types = length (filter (\<lambda>t. t = 1) types)"

definition numSurplusOf :: "int list \<Rightarrow> nat" where
  "numSurplusOf types = length (filter (\<lambda>t. t = 2) types)"

definition numArtificialOf :: "int list \<Rightarrow> nat" where
  "numArtificialOf types = length (filter (\<lambda>t. t \<noteq> 1) types)"

definition totalVarsOf :: "SimplexSolver \<Rightarrow> nat" where
  "totalVarsOf s =
     numVariables s + numSlackOf (constraintTypes s) + numSurplusOf (constraintTypes s)
       + numArtificialOf (constraintTypes s)"

text \<open>The state after the row loop: fresh tableau, names and basis, then the rows.\<close>

definition initialRows :: "SimplexSolver \<Rightarrow> SimplexSolver" where
  "initialRows s =
     fillRows [0..<numConstraints s] (totalVarsOf s + 1)
       (s\<lparr>tableau := replicate (numConstraints s + 1) (replicate (totalVarsOf s + 1) 0),
          varNames := map (\<lambda>i. ''x'' @ to_string (i + 1)) [0..<numVariables s],
          basicVars := []\<rparr>)
       (numVariables s)
       (numVariables s + numSlackOf (constraintTypes s))
       (numVariables s + numSlackOf (constraintTypes s) + numSurplusOf (constraintTypes s))"

definition createInitialTableau :: "SimplexSolver \<Rightarrow> SimplexSolver" where
  "createInitialTableau s =
     (initialRows s)\<lparr>tableau :=
        bigMRows
          (fillObjective (tableau (initialRows s)) (isMaximization s) (objective s)
             (numConstraints s) [0..<numVariables s])
          (isMaximization s) (constraintTypes s)
          (numVariables s + numSlackOf (constraintTypes s) + numSurplusOf (constraintTypes s))
          (totalVarsOf s) (numConstraints s + 1) (totalVarsOf s + 1)
          [0..<numConstraints s]\<rparr>"

subsection \<open>Pivot selection and the pivot\<close>

text \<open>
  The entering column (lines 143 to 167): the scan keeps the most negative entry of the
  objective row (most positive when minimizing) and its index, starting from \<open>0\<close> and
  \<open>-1\<close>; a later entry wins only if it beats the kept one by more than \<^verbatim>\<open>EPSILON\<close>.
\<close>

fun scanMin :: "rat list \<Rightarrow> nat list \<Rightarrow> rat \<Rightarrow> int \<Rightarrow> int" where
  "scanMin row [] minVal minIdx = minIdx"
| "scanMin row (j # js) minVal minIdx =
     (if row ! j < minVal - EPSILON then scanMin row js (row ! j) (int j)
      else scanMin row js minVal minIdx)"

fun scanMax :: "rat list \<Rightarrow> nat list \<Rightarrow> rat \<Rightarrow> int \<Rightarrow> int" where
  "scanMax row [] maxVal maxIdx = maxIdx"
| "scanMax row (j # js) maxVal maxIdx =
     (if row ! j > maxVal + EPSILON then scanMax row js (row ! j) (int j)
      else scanMax row js maxVal maxIdx)"

definition findPivotColumn :: "SimplexSolver \<Rightarrow> int" where
  "findPivotColumn s =
     (if isMaximization s
      then scanMin (last (tableau s)) [0..<length (tableau s ! 0) - 1] 0 (- 1)
      else scanMax (last (tableau s)) [0..<length (tableau s ! 0) - 1] 0 (- 1))"

text \<open>
  The ratio test (lines 169 to 183): among the constraint rows with an entry above
  \<^verbatim>\<open>EPSILON\<close> in the pivot column, the first one with the smallest ratio; \<open>-1\<close> when
  there is none.
\<close>

fun ratioTest :: "rat list list \<Rightarrow> nat \<Rightarrow> nat list \<Rightarrow> rat \<Rightarrow> int \<Rightarrow> int" where
  "ratioTest T pivotCol [] minRatio minRow = minRow"
| "ratioTest T pivotCol (i # is) minRatio minRow =
     (if T ! i ! pivotCol > EPSILON then
        (if last (T ! i) / (T ! i ! pivotCol) < minRatio
         then ratioTest T pivotCol is (last (T ! i) / (T ! i ! pivotCol)) (int i)
         else ratioTest T pivotCol is minRatio minRow)
      else ratioTest T pivotCol is minRatio minRow)"

definition findPivotRow :: "SimplexSolver \<Rightarrow> nat \<Rightarrow> int" where
  "findPivotRow s pivotCol =
     ratioTest (tableau s) pivotCol [0..<length (tableau s) - 1] (10 ^ 30) (- 1)"

text \<open>
  The pivot (lines 185 to 203): the pivot row is divided by the pivot element, read
  once before the loop; then every other row, the objective row included, loses its
  pivot-column entry (read once per row) times the pivot row.
\<close>

fun divideRow :: "rat list list \<Rightarrow> nat \<Rightarrow> rat \<Rightarrow> nat list \<Rightarrow> rat list list" where
  "divideRow T pivotRow pivotElement [] = T"
| "divideRow T pivotRow pivotElement (j # js) =
     divideRow (set_cell T pivotRow j (T ! pivotRow ! j / pivotElement)) pivotRow pivotElement js"

fun subtractRow :: "rat list list \<Rightarrow> nat \<Rightarrow> nat \<Rightarrow> rat \<Rightarrow> nat list \<Rightarrow> rat list list" where
  "subtractRow T i pivotRow factor [] = T"
| "subtractRow T i pivotRow factor (j # js) =
     subtractRow (set_cell T i j (T ! i ! j - factor * (T ! pivotRow ! j))) i pivotRow factor js"

fun eliminateRows :: "rat list list \<Rightarrow> nat \<Rightarrow> nat \<Rightarrow> nat \<Rightarrow> nat list \<Rightarrow> rat list list" where
  "eliminateRows T pivotRow pivotCol numCols [] = T"
| "eliminateRows T pivotRow pivotCol numCols (i # is) =
     eliminateRows
       (if i \<noteq> pivotRow then subtractRow T i pivotRow (T ! i ! pivotCol) [0..<numCols] else T)
       pivotRow pivotCol numCols is"

definition performPivot :: "SimplexSolver \<Rightarrow> nat \<Rightarrow> nat \<Rightarrow> SimplexSolver" where
  "performPivot s pivotRow pivotCol =
     s\<lparr>basicVars := (basicVars s)[pivotRow := pivotCol],
       tableau :=
         eliminateRows
           (divideRow (tableau s) pivotRow (tableau s ! pivotRow ! pivotCol)
              [0..<length (tableau s ! pivotRow)])
           pivotRow pivotCol (length (tableau s ! pivotRow)) [0..<length (tableau s)]\<rparr>"

subsection \<open>solve\<close>

text \<open>
  The pivoting loop of \<^verbatim>\<open>solve\<close> (lines 209 to 222), with the number of passes left as its
  first argument. The result says whether the loop left through the unbounded return
  (\<open>True\<close>, with the flag \<^verbatim>\<open>isUnbounded\<close> set) or ended by the break or by running out
  of passes (\<open>False\<close>).
\<close>

fun pivotLoop :: "nat \<Rightarrow> SimplexSolver \<Rightarrow> bool \<times> SimplexSolver" where
  "pivotLoop 0 s = (False, s)"
| "pivotLoop (Suc n) s =
     (if findPivotColumn s = - 1 then (False, s)
      else if findPivotRow s (nat (findPivotColumn s)) = - 1
      then (True, s\<lparr>isUnbounded := True\<rparr>)
      else pivotLoop n
             (performPivot s (nat (findPivotRow s (nat (findPivotColumn s))))
                (nat (findPivotColumn s))))"

text \<open>
  The check of lines 225 to 235: is there a basic variable whose entry of
  \<^verbatim>\<open>varNames\<close> starts with the letter a, in a row whose right-hand side exceeds
  \<^verbatim>\<open>1e-6\<close>?
\<close>

fun artificialCheck :: "SimplexSolver \<Rightarrow> nat list \<Rightarrow> bool" where
  "artificialCheck s [] = False"
| "artificialCheck s (i # is) =
     (if basicVars s ! i < length (varNames s)
         \<and> hd (varNames s ! (basicVars s ! i)) = CHR ''a''
         \<and> last (tableau s ! i) > 1 / 1000000
      then True else artificialCheck s is)"

text \<open>The extraction of lines 238 to 249.\<close>

fun extractSolution :: "SimplexSolver \<Rightarrow> nat list \<Rightarrow> rat list \<Rightarrow> rat list" where
  "extractSolution s [] outSolution = outSolution"
| "extractSolution s (i # is) outSolution =
     extractSolution s is
       (if basicVars s ! i < numVariables s
        then outSolution[basicVars s ! i := last (tableau s ! i)] else outSolution)"

fun objectiveValue :: "rat list \<Rightarrow> rat list \<Rightarrow> nat list \<Rightarrow> rat \<Rightarrow> rat" where
  "objectiveValue obj sol [] acc = acc"
| "objectiveValue obj sol (i # is) acc = objectiveValue obj sol is (acc + obj ! i * sol ! i)"

definition maxIterations :: nat where
  "maxIterations = 100"

text \<open>
  What \<^verbatim>\<open>solve\<close> does after the loop, on the solver as the loop left it: the pair of
  output parameters \<^verbatim>\<open>outSolution\<close> and \<^verbatim>\<open>outObjValue\<close>, which every path overwrites,
  and the solver object with its flags.
\<close>

definition finish :: "SimplexSolver \<Rightarrow> SimplexSolver \<times> rat list \<times> rat" where
  "finish s =
     (if artificialCheck s [0..<length (basicVars s)] then (s\<lparr>isFeasible := False\<rparr>, [], 0)
      else (s, extractSolution s [0..<length (basicVars s)] (replicate (numVariables s) 0),
            objectiveValue (objective s)
              (extractSolution s [0..<length (basicVars s)] (replicate (numVariables s) 0))
              [0..<numVariables s] 0))"

fun afterLoop :: "bool \<times> SimplexSolver \<Rightarrow> SimplexSolver \<times> rat list \<times> rat" where
  "afterLoop (True, s) = (s, [], 0)"
| "afterLoop (False, s) = finish s"

definition solve :: "SimplexSolver \<Rightarrow> SimplexSolver \<times> rat list \<times> rat" where
  "solve s = afterLoop (pivotLoop maxIterations (createInitialTableau s))"

section \<open>The search tree and the frontier\<close>

record TreeNode =
  nodeId :: int
  parentId :: int
  branchConstraint :: string
  depth :: nat
  solution :: "rat list"
  objValue :: rat
  status :: string
  leftChild :: int
  rightChild :: int
  isOptimal :: bool

text \<open>The two constructors of \<^verbatim>\<open>TreeNode\<close>; a new node has the empty status.\<close>

definition TreeNode_default :: TreeNode where
  "TreeNode_default =
     \<lparr> nodeId = - 1, parentId = - 1, branchConstraint = [], depth = 0, solution = [],
       objValue = 0, status = [], leftChild = - 1, rightChild = - 1, isOptimal = False \<rparr>"

definition TreeNode_new :: "int \<Rightarrow> int \<Rightarrow> string \<Rightarrow> nat \<Rightarrow> TreeNode" where
  "TreeNode_new ident parent constraint d =
     \<lparr> nodeId = ident, parentId = parent, branchConstraint = constraint, depth = d,
       solution = [], objValue = 0, status = [], leftChild = - 1, rightChild = - 1,
       isOptimal = False \<rparr>"

record QueueItem =
  extraCons :: "rat list list"
  extraRhs :: "rat list"
  extraTypes :: "int list"
  bound :: rat
  parentId_q :: int
  branchInfo :: string
  depth_q :: nat

text \<open>
  \<^verbatim>\<open>map<int, TreeNode>\<close> is an association list in key order. The program only adds
  keys larger than all present ones, so a new key goes to the end. \<open>getNode\<close> is the
  read \<^verbatim>\<open>treeNodes[k]\<close> (a default node for a key that is absent), \<open>putNode\<close> the
  assignment \<^verbatim>\<open>treeNodes[k] = n\<close>.
\<close>

fun getNode :: "(int \<times> TreeNode) list \<Rightarrow> int \<Rightarrow> TreeNode" where
  "getNode [] k = TreeNode_default"
| "getNode ((k', n) # rest) k = (if k' = k then n else getNode rest k)"

fun putNode :: "(int \<times> TreeNode) list \<Rightarrow> int \<Rightarrow> TreeNode \<Rightarrow> (int \<times> TreeNode) list" where
  "putNode [] k n = [(k, n)]"
| "putNode ((k', n') # rest) k n =
     (if k' = k then (k, n) # rest else (k', n') # putNode rest k n)"

section \<open>Branch and bound (class BranchAndBound)\<close>

text \<open>
  The fields of the class, followed by the two local variables of \<^verbatim>\<open>solve\<close> that live
  across its main loop (\<^verbatim>\<open>queue\<close>, \<^verbatim>\<open>nodeCounter\<close>) and by a history variable,
  \<open>statusLog\<close>, which the program does not have: every assignment
  \<^verbatim>\<open>treeNodes[k].status = v\<close> appends \<open>(k, v)\<close> to it, so that the number of times a
  status is written can be stated. Nothing reads it.
\<close>

record BranchAndBound =
  objective_bb :: "rat list"
  constraints_bb :: "rat list list"
  rhs_bb :: "rat list"
  constraintTypes_bb :: "int list"
  isMaximization_bb :: bool
  numVariables_bb :: nat
  numConstraints_bb :: nat
  integerVars :: "nat list"
  bestSolution :: "rat list"
  bestObjValue :: rat
  iteration :: nat
  treeNodes :: "(int \<times> TreeNode) list"
  optimalPath :: "int list"
  queue :: "QueueItem list"
  nodeCounter :: int
  statusLog :: "(int \<times> string) list"

text \<open>
  The object as \<^verbatim>\<open>main\<close> hands it to \<^verbatim>\<open>solve\<close>: freshly constructed, then filled by
  \<^verbatim>\<open>getUserInput\<close> with the direction, the objective, the constraint rows with their
  relation codes and right-hand sides, and the integer variables. The two ways
  \<^verbatim>\<open>getUserInput\<close> fills \<^verbatim>\<open>integerVars\<close> are \<open>allIntegerVars\<close> (choice 1) and
  \<open>selectedIntegerVars\<close> (choice 2, on the numbers read from the line).
\<close>

definition allIntegerVars :: "nat \<Rightarrow> nat list" where
  "allIntegerVars n = [0..<n]"

definition selectedIntegerVars :: "nat \<Rightarrow> nat list \<Rightarrow> nat list" where
  "selectedIntegerVars n vars = map (\<lambda>v. v - 1) (filter (\<lambda>v. 1 \<le> v \<and> v \<le> n) vars)"

definition BranchAndBound_input ::
  "bool \<Rightarrow> rat list \<Rightarrow> rat list list \<Rightarrow> int list \<Rightarrow> rat list \<Rightarrow> nat list \<Rightarrow> BranchAndBound" where
  "BranchAndBound_input isMax obj cons types r ivars =
     \<lparr> objective_bb = obj, constraints_bb = cons, rhs_bb = r, constraintTypes_bb = types,
       isMaximization_bb = isMax, numVariables_bb = length obj, numConstraints_bb = length cons,
       integerVars = ivars, bestSolution = [], bestObjValue = 0, iteration = 0,
       treeNodes = [], optimalPath = [], queue = [], nodeCounter = 0, statusLog = [] \<rparr>"

subsection \<open>Integrality test and branching variable\<close>

text \<open>The test \<^verbatim>\<open>fabs(val - floor(val + 0.5)) > 1e-6\<close> of lines 467 and 478.\<close>

definition isFractional :: "rat \<Rightarrow> bool" where
  "isFractional val = (\<bar>val - of_int \<lfloor>val + 1 / 2\<rfloor>\<bar> > 1 / 1000000)"

fun allIntegral :: "nat list \<Rightarrow> rat list \<Rightarrow> bool" where
  "allIntegral [] sol = True"
| "allIntegral (idx # rest) sol =
     (if isFractional (sol ! idx) then False else allIntegral rest sol)"

definition isIntegerSolution :: "BranchAndBound \<Rightarrow> rat list \<Rightarrow> bool" where
  "isIntegerSolution b sol = (if sol = [] then False else allIntegral (integerVars b) sol)"

text \<open>
  \<^verbatim>\<open>findBranchingVariable\<close> returns its two output parameters \<^verbatim>\<open>varIdx\<close> and
  \<^verbatim>\<open>fracVal\<close>, which start as \<open>-1\<close> and \<open>0\<close>.
\<close>

fun firstFractional :: "nat list \<Rightarrow> rat list \<Rightarrow> int \<times> rat" where
  "firstFractional [] sol = (- 1, 0)"
| "firstFractional (idx # rest) sol =
     (if isFractional (sol ! idx) then (int idx, sol ! idx) else firstFractional rest sol)"

definition findBranchingVariable :: "BranchAndBound \<Rightarrow> rat list \<Rightarrow> int \<times> rat" where
  "findBranchingVariable b sol = firstFractional (integerVars b) sol"

subsection \<open>solveSubproblem\<close>

text \<open>
  The root constraints followed by the extra ones, one entry of each of the three extra
  vectors per extra constraint; then a solver constructed for this one call.
  \<open>relaxation\<close> keeps the solver object as \<^verbatim>\<open>solve\<close> leaves it, with its two flags;
  \<^verbatim>\<open>solveSubproblem\<close> hands back the two output parameters only.
\<close>

definition relaxation ::
  "BranchAndBound \<Rightarrow> rat list list \<Rightarrow> rat list \<Rightarrow> int list \<Rightarrow> SimplexSolver \<times> rat list \<times> rat" where
  "relaxation b ec er et =
     solve (SimplexSolver_new (objective_bb b)
              (constraints_bb b @ map (\<lambda>i. ec ! i) [0..<length ec])
              (rhs_bb b @ map (\<lambda>i. er ! i) [0..<length ec])
              (constraintTypes_bb b @ map (\<lambda>i. et ! i) [0..<length ec])
              (isMaximization_bb b))"

definition solveSubproblem ::
  "BranchAndBound \<Rightarrow> rat list list \<Rightarrow> rat list \<Rightarrow> int list \<Rightarrow> rat list \<times> rat" where
  "solveSubproblem b ec er et = snd (relaxation b ec er et)"

subsection \<open>The pieces of the main loop\<close>

definition setStatus :: "BranchAndBound \<Rightarrow> int \<Rightarrow> string \<Rightarrow> BranchAndBound" where
  "setStatus st k v =
     st\<lparr>treeNodes := putNode (treeNodes st) k ((getNode (treeNodes st) k)\<lparr>status := v\<rparr>),
        statusLog := statusLog st @ [(k, v)]\<rparr>"

text \<open>
  \<^verbatim>\<open>std::sort\<close> with the comparison on \<^verbatim>\<open>bound\<close> (larger first when maximizing,
  smaller first when minimizing). The standard leaves the order of items with equal
  bounds open; the model keeps them in the order they have in the queue, as the insertion
  sort does that library implementations run on short ranges.
\<close>

fun insertItem :: "bool \<Rightarrow> QueueItem \<Rightarrow> QueueItem list \<Rightarrow> QueueItem list" where
  "insertItem isMax x [] = [x]"
| "insertItem isMax x (y # ys) =
     (if (if isMax then bound x > bound y else bound x < bound y)
      then x # y # ys else y # insertItem isMax x ys)"

fun sortQueue :: "bool \<Rightarrow> QueueItem list \<Rightarrow> QueueItem list \<Rightarrow> QueueItem list" where
  "sortQueue isMax acc [] = acc"
| "sortQueue isMax acc (x # xs) = sortQueue isMax (insertItem isMax x acc) xs"

text \<open>
  Lines 670 to 690: an item below the root gets the next node number and a tree node
  with the relaxation's result, and becomes the left child of its parent if the parent
  has none yet, the right child otherwise. The item of depth 0 is the root, node 0.
\<close>

definition linkChild :: "(int \<times> TreeNode) list \<Rightarrow> int \<Rightarrow> int \<Rightarrow> (int \<times> TreeNode) list" where
  "linkChild nodes parent child =
     (if leftChild (getNode nodes parent) = - 1
      then putNode nodes parent ((getNode nodes parent)\<lparr>leftChild := child\<rparr>)
      else putNode nodes parent ((getNode nodes parent)\<lparr>rightChild := child\<rparr>))"

definition registerNode :: "QueueItem \<Rightarrow> rat list \<Rightarrow> rat \<Rightarrow> BranchAndBound \<Rightarrow> BranchAndBound" where
  "registerNode current sol obj st =
     (if depth_q current > 0 then
        st\<lparr>nodeCounter := nodeCounter st + 1,
           treeNodes :=
             linkChild
               (putNode (treeNodes st) (nodeCounter st + 1)
                  ((TreeNode_new (nodeCounter st + 1) (parentId_q current)
                      (branchInfo current) (depth_q current))
                     \<lparr>solution := sol, objValue := obj\<rparr>))
               (parentId_q current) (nodeCounter st + 1)\<rparr>
      else st)"

definition currentNodeId :: "QueueItem \<Rightarrow> BranchAndBound \<Rightarrow> int" where
  "currentNodeId current st = (if depth_q current > 0 then nodeCounter st else 0)"

text \<open>
  Lines 735 to 748: the path from the root to the new best node, by parent links until
  \<open>-1\<close>, and the mark on every node of whether it lies on that path. The walk is a loop
  with no bound in the source, so its model may have no result.
\<close>

partial_function (option) tracePath ::
  "(int \<times> TreeNode) list \<Rightarrow> int \<Rightarrow> int list \<Rightarrow> int list option" where
  "tracePath nodes traceId path =
     (if traceId = - 1 then Some path
      else tracePath nodes (parentId (getNode nodes traceId)) (traceId # path))"

text \<open>The linear search with a \<^verbatim>\<open>found\<close> flag of lines 743 to 746 and 818 to 821.\<close>

fun contains :: "'a list \<Rightarrow> 'a \<Rightarrow> bool" where
  "contains [] k = False"
| "contains (x # xs) k = (if x = k then True else contains xs k)"

fun markOptimal :: "int list \<Rightarrow> (int \<times> TreeNode) list \<Rightarrow> (int \<times> TreeNode) list" where
  "markOptimal path [] = []"
| "markOptimal path ((k, n) # rest) =
     (k, n\<lparr>isOptimal := contains path k\<rparr>) # markOptimal path rest"

fun newBest :: "rat list \<Rightarrow> rat \<Rightarrow> int list option \<Rightarrow> BranchAndBound \<Rightarrow> BranchAndBound option" where
  "newBest sol obj None st = None"
| "newBest sol obj (Some path) st =
     Some (st\<lparr>bestSolution := sol, bestObjValue := obj, optimalPath := path,
              treeNodes := markOptimal path (treeNodes st)\<rparr>)"

text \<open>Lines 722 to 751, after the status \<^verbatim>\<open>INTEGER\<close> has been written.\<close>

definition recordInteger :: "rat list \<Rightarrow> rat \<Rightarrow> int \<Rightarrow> BranchAndBound \<Rightarrow> BranchAndBound option" where
  "recordInteger sol obj cid st =
     (if (isMaximization_bb st \<and> obj > bestObjValue st)
         \<or> (\<not> isMaximization_bb st \<and> obj < bestObjValue st)
      then newBest sol obj (tracePath (treeNodes st) cid []) st
      else Some st)"

text \<open>
  Lines 753 to 795: the two children of a node, pushed on the queue with the node's
  objective as their bound. \<^verbatim>\<open>(int)floor(fracVal)\<close> and \<^verbatim>\<open>(int)ceil(fracVal)\<close> are the
  integer floor and ceiling. The write \<^verbatim>\<open>coef[varIdx] = 1.0\<close> is modelled for
  \<open>varIdx\<close> from 0 on.
\<close>

definition branchItem ::
  "QueueItem \<Rightarrow> rat list \<Rightarrow> int \<Rightarrow> int \<Rightarrow> rat \<Rightarrow> int \<Rightarrow> string \<Rightarrow> int \<Rightarrow> QueueItem" where
  "branchItem current coef boundVal relation obj cid rel varIdx =
     \<lparr> extraCons = extraCons current @ [coef],
       extraRhs = extraRhs current @ [of_int boundVal],
       extraTypes = extraTypes current @ [relation],
       bound = obj, parentId_q = cid,
       branchInfo = ''x'' @ to_string_int (varIdx + 1) @ rel @ to_string_int boundVal,
       depth_q = depth_q current + 1 \<rparr>"

fun branch :: "QueueItem \<Rightarrow> rat \<Rightarrow> int \<Rightarrow> int \<times> rat \<Rightarrow> BranchAndBound \<Rightarrow> BranchAndBound" where
  "branch current obj cid (varIdx, fracVal) st =
     st\<lparr>queue := queue st @
          [branchItem current ((replicate (numVariables_bb st) 0)[nat varIdx := 1])
             \<lfloor>fracVal\<rfloor> 1 obj cid '' <= '' varIdx,
           branchItem current ((replicate (numVariables_bb st) 0)[nat varIdx := 1])
             \<lceil>fracVal\<rceil> 2 obj cid '' >= '' varIdx]\<rparr>"

text \<open>
  Lines 692 to 795 for the node \<open>cid\<close> with relaxation result \<open>sol\<close>, \<open>obj\<close>: an empty
  solution, then the bound check, then the integrality check, then the branching.
\<close>

definition classify ::
  "QueueItem \<Rightarrow> rat list \<Rightarrow> rat \<Rightarrow> int \<Rightarrow> BranchAndBound \<Rightarrow> BranchAndBound option" where
  "classify current sol obj cid st =
     (if sol = [] then Some (setStatus st cid ''INFEASIBLE'')
      else if (isMaximization_bb st \<and> obj \<le> bestObjValue st)
              \<or> (\<not> isMaximization_bb st \<and> obj \<ge> bestObjValue st)
      then Some (setStatus st cid ''PRUNED'')
      else if isIntegerSolution st sol
      then recordInteger sol obj cid (setStatus st cid ''INTEGER'')
      else Some (branch current obj cid (findBranchingVariable st sol)
                   (setStatus st cid ''BRANCHED'')))"

fun relaxNode :: "QueueItem \<Rightarrow> rat list \<times> rat \<Rightarrow> BranchAndBound \<Rightarrow> BranchAndBound option" where
  "relaxNode current (sol, obj) st =
     classify current sol obj
       (currentNodeId current (registerNode current sol obj st))
       (registerNode current sol obj st)"

text \<open>
  The body of the main loop after the sort (lines 657 to 795), on the sorted queue: the
  front item is taken off; the item of depth 0 is skipped after the first pass. The
  equation for the empty queue is never reached, since the loop runs its body on a
  non-empty queue only and sorting keeps the items.
\<close>

fun processFront :: "QueueItem list \<Rightarrow> BranchAndBound \<Rightarrow> BranchAndBound option" where
  "processFront [] st = Some st"
| "processFront (current # rest) st =
     (if depth_q current = 0 \<and> iteration st > 1 then Some (st\<lparr>queue := rest\<rparr>)
      else relaxNode current
             (solveSubproblem st (extraCons current) (extraRhs current) (extraTypes current))
             (st\<lparr>queue := rest\<rparr>))"

definition mainLoopBody :: "BranchAndBound \<Rightarrow> BranchAndBound option" where
  "mainLoopBody st =
     processFront (sortQueue (isMaximization_bb st) [] (queue st))
       (st\<lparr>iteration := iteration st + 1\<rparr>)"

text \<open>
  The main loop (line 642) may run forever: its model has the value \<open>None\<close> when the
  program does not come back.
\<close>

partial_function (option) mainLoop :: "BranchAndBound \<Rightarrow> BranchAndBound option" where
  "mainLoop st =
     (if queue st = [] then Some st else Option.bind (mainLoopBody st) mainLoop)"

subsection \<open>BranchAndBound::solve\<close>

definition initialItem :: "rat \<Rightarrow> QueueItem" where
  "initialItem rootObj =
     \<lparr> extraCons = [], extraRhs = [], extraTypes = [], bound = rootObj, parentId_q = 0,
       branchInfo = [], depth_q = 0 \<rparr>"

definition rootNode :: "rat list \<Rightarrow> rat \<Rightarrow> TreeNode" where
  "rootNode rootSol rootObj =
     (TreeNode_new 0 (- 1) ''ROOT'' 0)\<lparr>solution := rootSol, objValue := rootObj\<rparr>"

definition markRootOptimal :: "BranchAndBound \<Rightarrow> BranchAndBound" where
  "markRootOptimal st =
     st\<lparr>treeNodes := putNode (treeNodes st) 0 ((getNode (treeNodes st) 0)\<lparr>isOptimal := True\<rparr>)\<rparr>"

text \<open>
  Lines 584 to 800 on the result of the root relaxation. The root node is stored; an
  empty solution ends the solve with the status \<^verbatim>\<open>INFEASIBLE\<close>; an integral one ends it
  with the root as the incumbent; otherwise the root is marked \<^verbatim>\<open>BRANCHED\<close>, the
  incumbent value starts at \<^verbatim>\<open>-1e30\<close> or \<^verbatim>\<open>1e30\<close>, and the main loop runs on a queue
  holding the root item.
\<close>

fun afterRoot :: "rat list \<times> rat \<Rightarrow> BranchAndBound \<Rightarrow> BranchAndBound option" where
  "afterRoot (rootSol, rootObj) st =
     (if rootSol = [] then
        Some (setStatus (st\<lparr>treeNodes := putNode (treeNodes st) 0 (rootNode rootSol rootObj)\<rparr>)
                0 ''INFEASIBLE'')
      else if isIntegerSolution st rootSol then
        Some ((markRootOptimal
                 (setStatus (st\<lparr>treeNodes := putNode (treeNodes st) 0 (rootNode rootSol rootObj)\<rparr>)
                    0 ''INTEGER''))
                \<lparr>bestSolution := rootSol, bestObjValue := rootObj,
                 optimalPath := optimalPath st @ [0]\<rparr>)
      else
        mainLoop
          ((setStatus (st\<lparr>treeNodes := putNode (treeNodes st) 0 (rootNode rootSol rootObj)\<rparr>)
              0 ''BRANCHED'')
             \<lparr>bestObjValue := (if isMaximization_bb st then - (10 ^ 30) else 10 ^ 30),
              queue := [initialItem rootObj], nodeCounter := 0\<rparr>))"

definition solve_bb :: "BranchAndBound \<Rightarrow> BranchAndBound option" where
  "solve_bb st = afterRoot (solveSubproblem st [] [] []) st"

text \<open>
  What \<^verbatim>\<open>displayFinalSolution\<close> reports (lines 802 to 834): nothing when there is no
  incumbent; otherwise the value of every variable, an integer variable as
  \<^verbatim>\<open>(int)(val + 0.5)\<close>, and the objective recomputed from the incumbent.
\<close>

definition truncate_int :: "rat \<Rightarrow> int" where
  "truncate_int r = (if r < 0 then \<lceil>r\<rceil> else \<lfloor>r\<rfloor>)"

definition reportedValue :: "BranchAndBound \<Rightarrow> nat \<Rightarrow> rat" where
  "reportedValue st i =
     (if contains (integerVars st) i then of_int (truncate_int (bestSolution st ! i + 1 / 2))
      else bestSolution st ! i)"

definition displayFinalSolution :: "BranchAndBound \<Rightarrow> (rat list \<times> rat) option" where
  "displayFinalSolution st =
     (if bestSolution st = [] then None
      else Some (map (reportedValue st) [0..<numVariables_bb st],
                 objectiveValue (objective_bb st) (bestSolution st) [0..<numVariables_bb st] 0))"

section \<open>Predicates and inputs used by the theorems\<close>

text \<open>The four values a node's status ends in.\<close>

definition terminalStatus :: "string \<Rightarrow> bool" where
  "terminalStatus v =
     (v = ''INFEASIBLE'' \<or> v = ''PRUNED'' \<or> v = ''INTEGER'' \<or> v = ''BRANCHED'')"

text \<open>
  The invariant of the main loop: the nodes are numbered \<open>0\<close> to \<^verbatim>\<open>nodeCounter\<close>; the
  status writes to nodes other than the root are, in order, one for each of the nodes
  \<open>1\<close> to \<^verbatim>\<open>nodeCounter\<close>; every written status and every node's status is one of the
  four; the root has been written once before the first pass and at most twice later;
  every queued item names an existing parent.
\<close>

definition searchInvariant :: "BranchAndBound \<Rightarrow> bool" where
  "searchInvariant st =
     (0 \<le> nodeCounter st
      \<and> filter (\<lambda>k. k \<noteq> 0) (map fst (statusLog st)) = [1..nodeCounter st]
      \<and> map fst (treeNodes st) = [0..nodeCounter st]
      \<and> list_all (\<lambda>e. terminalStatus (snd e)) (statusLog st)
      \<and> list_all (\<lambda>k. terminalStatus (status (getNode (treeNodes st) k))) [0..nodeCounter st]
      \<and> length (filter (\<lambda>k. k = 0) (map fst (statusLog st))) \<le> (if iteration st = 0 then 1 else 2)
      \<and> list_all (\<lambda>q. 0 \<le> parentId_q q \<and> parentId_q q \<le> nodeCounter st) (queue st))"

text \<open>
  The scenario of the specification: maximize \<open>5 x1 + 4 x2\<close> subject to
  \<open>x1 + x2 \<le> 5\<close> and \<open>10 x1 + 6 x2 \<le> 45\<close>, both variables integer.
\<close>

definition pure_ilp :: BranchAndBound where
  "pure_ilp = BranchAndBound_input True [5, 4] [[1, 1], [10, 6]] [1, 1] [5, 45] [0, 1]"

text \<open>Maximize \<open>x1\<close> subject to \<open>2 x1 \<le> 3\<close>, \<open>x1\<close> integer: the root is fractional.\<close>

definition small_ilp :: BranchAndBound where
  "small_ilp = BranchAndBound_input True [1] [[2]] [1] [3] [0]"

text \<open>Maximize \<open>x1\<close> subject to \<open>x1 \<le> 2\<close>, \<open>x1\<close> integer: the root is integral.\<close>

definition integral_ilp :: BranchAndBound where
  "integral_ilp = BranchAndBound_input True [1] [[1]] [1] [2] [0]"

text \<open>Maximize \<open>x1\<close> subject to \<open>x1 \<ge> 0\<close> only, \<open>x1\<close> integer.\<close>

definition unbounded_ilp :: BranchAndBound where
  "unbounded_ilp = BranchAndBound_input True [1] [[1]] [2] [0] [0]"

text \<open>Maximize \<open>x1\<close> subject to \<open>x1 \<le> -1\<close>: a negative right-hand side.\<close>

definition negative_rhs_lp :: SimplexSolver where
  "negative_rhs_lp = SimplexSolver_new [1] [[1]] [- 1] [1] True"

text \<open>Maximize \<open>x1\<close> subject to \<open>x1 \<ge> 5\<close> and \<open>x1 \<le> 2\<close>: no feasible point.\<close>

definition infeasible_lp :: SimplexSolver where
  "infeasible_lp = SimplexSolver_new [1] [[1], [1]] [5, 2] [2, 1] True"

text \<open>
  Maximize \<open>10 x1 - 57 x2 - 9 x3 - 24 x4\<close> subject to
  \<open>0.5 x1 - 5.5 x2 - 2.5 x3 + 9 x4 \<le> 0\<close>, \<open>0.5 x1 - 1.5 x2 - 0.5 x3 + x4 \<le> 0\<close> and
  \<open>x1 \<le> 1\<close>. All its entries are small multiples of one half.
\<close>

definition cycling_lp :: SimplexSolver where
  "cycling_lp =
     SimplexSolver_new [10, - 57, - 9, - 24]
       [[1 / 2, - (11 / 2), - (5 / 2), 9], [1 / 2, - (3 / 2), - (1 / 2), 1], [1, 0, 0, 0]]
       [0, 0, 1] [1, 1, 1] True"

text \<open>The solver object on which the pivoting loop stops for \<open>cycling_lp\<close>.\<close>

definition cycling_stuck :: SimplexSolver where
  "cycling_stuck =
     \<lparr> numVariables = 4, numConstraints = 3, objective = [10, - 57, - 9, - 24],
       constraints =
         [[1 / 2, - (11 / 2), - (5 / 2), 9], [1 / 2, - (3 / 2), - (1 / 2), 1], [1, 0, 0, 0]],
       rhs = [0, 0, 1], constraintTypes = [1, 1, 1], isMaximization = True,
       tableau =
         [[- 2, 4, 1, 0, 1 / 2, - (9 / 2), 0, 0],
          [- (1 / 2), 1 / 2, 0, 1, 1 / 4, - (5 / 4), 0, 0],
          [1, 0, 0, 0, 0, 0, 1, 1],
          [20, 9, 0, 0, - (21 / 2), 141 / 2, 0, 0]],
       varNames = [''x1'', ''x2'', ''x3'', ''x4'', ''s1'', ''s2'', ''s3''],
       basicVars = [2, 3, 6], isFeasible = True, isUnbounded = False \<rparr>"

text \<open>
  A search state in which the incumbent has objective \<open>1\<close> and the queue holds the
  child \<open>x1 \<le> 1\<close> of the root of \<open>small_ilp\<close>.
\<close>

definition left_child_item :: QueueItem where
  "left_child_item =
     \<lparr> extraCons = [[1]], extraRhs = [1], extraTypes = [1], bound = 3 / 2, parentId_q = 0,
       branchInfo = ''x1 <= 1'', depth_q = 1 \<rparr>"

definition pruning_state :: BranchAndBound where
  "pruning_state =
     small_ilp\<lparr>bestSolution := [1], bestObjValue := 1, iteration := 2,
       treeNodes := [(0, (rootNode [3 / 2] (3 / 2))\<lparr>status := ''BRANCHED''\<rparr>)],
       queue := [left_child_item]\<rparr>"

text \<open>
  The solver object that \<^verbatim>\<open>solve\<close> leaves behind for the child \<open>x1 \<le> 3\<close> of the root of
  \<open>pure_ilp\<close>, and a solver object for the same system whose tableau, names, basis and
  flags come from elsewhere.
\<close>

definition pure_ilp_child_solved :: SimplexSolver where
  "pure_ilp_child_solved =
     \<lparr> numVariables = 2, numConstraints = 3, objective = [5, 4],
       constraints = [[1, 1], [10, 6], [1, 0]], rhs = [5, 45, 3],
       constraintTypes = [1, 1, 1], isMaximization = True,
       tableau = [[0, 1, 1, 0, - 1, 2], [0, 0, - 6, 1, - 4, 3], [1, 0, 0, 0, 1, 3],
                  [0, 0, 4, 0, 1, 23]],
       varNames = [''x1'', ''x2'', ''s1'', ''s2'', ''s3''],
       basicVars = [1, 3, 0], isFeasible = True, isUnbounded = False \<rparr>"

definition pure_ilp_child_stale :: SimplexSolver where
  "pure_ilp_child_stale =
     (SimplexSolver_new [5, 4] [[1, 1], [10, 6], [1, 0]] [5, 45, 3] [1, 1, 1] True)
       \<lparr>tableau := [[1, 7], [0, 2]], varNames := [''a1''], basicVars := [0, 0],
         isFeasible := False, isUnbounded := True\<rparr>"

section \<open>Rules for evaluating the model on concrete inputs\<close>

lemma pivotLoop_numeral:
  "pivotLoop (numeral k) s =
     (if findPivotColumn s = - 1 then (False, s)
      else if findPivotRow s (nat (findPivotColumn s)) = - 1
      then (True, s\<lparr>isUnbounded := True\<rparr>)
      else pivotLoop (pred_numeral k)
             (performPivot s (nat (findPivotRow s (nat (findPivotColumn s))))
                (nat (findPivotColumn s))))"
  by (simp add: numeral_eq_Suc)

lemma floor_quotient: "\<lfloor>(numeral a :: rat) / numeral b\<rfloor> = numeral a div numeral b"
  using floor_divide_of_int_eq [of "numeral a" "numeral b", where ?'a = rat] by simp

lemma floor_neg_quotient: "\<lfloor>- ((numeral a :: rat) / numeral b)\<rfloor> = - numeral a div numeral b"
  using floor_divide_of_int_eq [of "- numeral a" "numeral b", where ?'a = rat] by simp

lemma ceiling_quotient: "\<lceil>(numeral a :: rat) / numeral b\<rceil> = - (- numeral a div numeral b)"
  by (simp add: ceiling_def floor_neg_quotient)

lemma ceiling_neg_quotient: "\<lceil>- ((numeral a :: rat) / numeral b)\<rceil> = - (numeral a div numeral b)"
  by (simp add: ceiling_def floor_quotient)

lemma replicate_numeral_eval: "replicate (numeral k) x = x # replicate (pred_numeral k) x"
  by (simp add: numeral_eq_Suc)

lemma upt_numeral_eval:
  "[i..<numeral k] = (if i < numeral k then i # [Suc i..<numeral k] else [])"
  by (rule upt_rec)

lemmas simplex_eval =
  replicate_numeral_eval upt_numeral_eval solve_def maxIterations_def pivotLoop_numeral createInitialTableau_def initialRows_def
  SimplexSolver_new_def set_cell_def performPivot_def findPivotColumn_def findPivotRow_def
  EPSILON_def BIG_M_def finish_def to_string.simps to_string_int_def numSlackOf_def
  numSurplusOf_def numArtificialOf_def totalVarsOf_def

lemmas search_eval =
  floor_quotient floor_neg_quotient ceiling_quotient ceiling_neg_quotient
  TreeNode_default_def TreeNode_new_def BranchAndBound_input_def isFractional_def
  isIntegerSolution_def findBranchingVariable_def relaxation_def solveSubproblem_def
  setStatus_def linkChild_def registerNode_def currentNodeId_def tracePath.simps
  recordInteger_def branchItem_def classify_def mainLoopBody_def mainLoop.simps
  initialItem_def rootNode_def markRootOptimal_def solve_bb_def truncate_int_def
  reportedValue_def displayFinalSolution_def

section \<open>Facts about the tree map, the queue and the pieces of the loop\<close>

lemma getNode_putNode: "getNode (putNode nodes k n) k = n"
  by (induction nodes) auto

lemma getNode_putNode_other: "k' \<noteq> k \<Longrightarrow> getNode (putNode nodes k n) k' = getNode nodes k'"
  by (induction nodes) auto

lemma keys_putNode:
  "map fst (putNode nodes k n) =
     (if k \<in> set (map fst nodes) then map fst nodes else map fst nodes @ [k])"
  by (induction nodes) (force simp: image_iff)+

lemma keys_markOptimal: "map fst (markOptimal path nodes) = map fst nodes"
  by (induction nodes) auto

lemma status_markOptimal:
  "status (getNode (markOptimal path nodes) k) = status (getNode nodes k)"
  by (induction nodes) auto

lemma set_insertItem: "set (insertItem m x ys) = insert x (set ys)"
  by (induction ys) auto

lemma set_sortQueue: "set (sortQueue m acc xs) = set acc \<union> set xs"
  by (induction xs arbitrary: acc) (auto simp: set_insertItem)

lemma keys_linkChild:
  "p \<in> set (map fst nodes) \<Longrightarrow> map fst (linkChild nodes p c) = map fst nodes"
  by (simp add: linkChild_def keys_putNode)

lemma status_linkChild: "status (getNode (linkChild nodes p c) k) = status (getNode nodes k)"
  by (cases "k = p") (simp_all add: linkChild_def getNode_putNode getNode_putNode_other)

text \<open>What \<^verbatim>\<open>getUserInput\<close> puts into \<^verbatim>\<open>integerVars\<close> is a list of variable indices.\<close>

lemma allIntegerVars_in_range: "list_all (\<lambda>v. v < n) (allIntegerVars n)"
  by (simp add: allIntegerVars_def list_all_iff)

lemma selectedIntegerVars_in_range: "list_all (\<lambda>v. v < n) (selectedIntegerVars n vars)"
  by (auto simp: selectedIntegerVars_def list_all_iff)

lemma firstFractional_in_range:
  "list_all (\<lambda>v. v < n) ivs \<Longrightarrow> \<not> allIntegral ivs sol \<Longrightarrow>
     0 \<le> fst (firstFractional ivs sol) \<and> fst (firstFractional ivs sol) < int n"
  by (induction ivs) (auto split: if_splits)

lemma firstFractional_integral:
  "allIntegral ivs sol \<Longrightarrow> firstFractional ivs sol = (- 1, 0)"
  by (induction ivs) (auto split: if_splits)

text \<open>\<^verbatim>\<open>createInitialTableau\<close> starts from nothing but the problem.\<close>

lemma createInitialTableau_fresh:
  "createInitialTableau (s\<lparr>tableau := T, varNames := V, basicVars := B\<rparr>) = createInitialTableau s"
  by (simp add: createInitialTableau_def initialRows_def totalVarsOf_def)

lemma solve_ignores_scratch:
  "solve (s\<lparr>tableau := T, varNames := V, basicVars := B\<rparr>) = solve s"
  by (simp only: solve_def createInitialTableau_fresh)

subsection \<open>The flags of the solver and a second call of \<^verbatim>\<open>solve\<close>\<close>

text \<open>
  \<^verbatim>\<open>isFeasible\<close> and \<^verbatim>\<open>isUnbounded\<close> are set by the constructor and by \<^verbatim>\<open>solve\<close>, and read
  by no member function: the tableau, the pivots and the loop do not depend on them.
  \<^verbatim>\<open>createInitialTableau\<close> and the pivots leave the problem as it is; the loop sets
  \<^verbatim>\<open>isUnbounded\<close> when it returns early and changes no flag otherwise.
\<close>

lemma flags_last:
  "s\<lparr>isFeasible := f, isUnbounded := u, tableau := T, varNames := V, basicVars := B\<rparr>
     = (s\<lparr>tableau := T, varNames := V, basicVars := B\<rparr>)\<lparr>isFeasible := f, isUnbounded := u\<rparr>"
  by simp

lemma fillRows_flags:
  "fillRows rows nc (s\<lparr>isFeasible := f, isUnbounded := u\<rparr>) a b c
     = (fillRows rows nc s a b c)\<lparr>isFeasible := f, isUnbounded := u\<rparr>"
  by (induction rows arbitrary: s a b c) (simp_all add: flags_last)

lemma fillRows_problem:
  "(fillRows rows nc s a b c)\<lparr>tableau := T, varNames := V, basicVars := B\<rparr>
     = s\<lparr>tableau := T, varNames := V, basicVars := B\<rparr>"
  by (induction rows arbitrary: s a b c) simp_all

lemma initialRows_flags:
  "initialRows (s\<lparr>isFeasible := f, isUnbounded := u\<rparr>)
     = (initialRows s)\<lparr>isFeasible := f, isUnbounded := u\<rparr>"
  unfolding initialRows_def totalVarsOf_def
  by (simp only: flags_last fillRows_flags) simp

lemma createInitialTableau_flags:
  "createInitialTableau (s\<lparr>isFeasible := f, isUnbounded := u\<rparr>)
     = (createInitialTableau s)\<lparr>isFeasible := f, isUnbounded := u\<rparr>"
  by (simp add: createInitialTableau_def initialRows_flags totalVarsOf_def)

lemma createInitialTableau_problem:
  "(createInitialTableau s)\<lparr>tableau := T, varNames := V, basicVars := B\<rparr>
     = s\<lparr>tableau := T, varNames := V, basicVars := B\<rparr>"
  by (simp add: createInitialTableau_def initialRows_def fillRows_problem)

lemma performPivot_flags:
  "performPivot (s\<lparr>isFeasible := f, isUnbounded := u\<rparr>) r c
     = (performPivot s r c)\<lparr>isFeasible := f, isUnbounded := u\<rparr>"
  by (simp add: performPivot_def)

lemma findPivot_flags:
  "findPivotColumn (s\<lparr>isFeasible := f, isUnbounded := u\<rparr>) = findPivotColumn s"
  "findPivotRow (s\<lparr>isFeasible := f, isUnbounded := u\<rparr>) c = findPivotRow s c"
  by (simp_all add: findPivotColumn_def findPivotRow_def)

lemma pivotLoop_flags:
  "pivotLoop n (s\<lparr>isFeasible := f, isUnbounded := u\<rparr>)
     = (fst (pivotLoop n s),
        (snd (pivotLoop n s))\<lparr>isFeasible := f, isUnbounded := (fst (pivotLoop n s) \<or> u)\<rparr>)"
  by (induction n arbitrary: s) (simp_all add: findPivot_flags performPivot_flags)

lemma pivotLoop_problem:
  "(snd (pivotLoop n s))\<lparr>tableau := T, varNames := V, basicVars := B\<rparr>
     = s\<lparr>tableau := T, varNames := V, basicVars := B,
         isUnbounded := (fst (pivotLoop n s) \<or> isUnbounded s)\<rparr>"
proof (induction n arbitrary: s)
  case 0
  show ?case by simp
next
  case (Suc n)
  show ?case
    using Suc.IH [of "performPivot s (nat (findPivotRow s (nat (findPivotColumn s))))
                (nat (findPivotColumn s))"]
    by (simp add: performPivot_def)
qed

lemma pivotLoop_own_flags:
  "isFeasible (snd (pivotLoop n s)) = isFeasible s"
  "isUnbounded (snd (pivotLoop n s)) = (fst (pivotLoop n s) \<or> isUnbounded s)"
  by (induction n arbitrary: s) (simp_all add: performPivot_def)

text \<open>
  A second call of \<^verbatim>\<open>solve\<close> on the object the first one left behind builds the same
  initial tableau, takes the same pivots and ends the same way, so it leaves the object
  as it found it and hands back the same output.
\<close>

lemma artificialCheck_flags:
  "artificialCheck (s\<lparr>isFeasible := f\<rparr>) rows = artificialCheck s rows"
  by (induction rows) simp_all

lemma createInitialTableau_own_flags:
  "isFeasible (createInitialTableau s) = isFeasible s"
  "isUnbounded (createInitialTableau s) = isUnbounded s"
proof -
  have "isFeasible ((createInitialTableau s)\<lparr>tableau := [], varNames := [], basicVars := []\<rparr>)
      = isFeasible (s\<lparr>tableau := [], varNames := [], basicVars := []\<rparr>)"
    by (simp only: createInitialTableau_problem)
  then show "isFeasible (createInitialTableau s) = isFeasible s" by simp
  have "isUnbounded ((createInitialTableau s)\<lparr>tableau := [], varNames := [], basicVars := []\<rparr>)
      = isUnbounded (s\<lparr>tableau := [], varNames := [], basicVars := []\<rparr>)"
    by (simp only: createInitialTableau_problem)
  then show "isUnbounded (createInitialTableau s) = isUnbounded s" by simp
qed

lemma createInitialTableau_again:
  "createInitialTableau ((snd (pivotLoop n (createInitialTableau s)))\<lparr>isFeasible := f\<rparr>)
     = (createInitialTableau s)
         \<lparr>isFeasible := f,
          isUnbounded := (fst (pivotLoop n (createInitialTableau s)) \<or> isUnbounded s)\<rparr>"
proof -
  let ?c = "createInitialTableau s"
  let ?p = "pivotLoop n ?c"
  let ?u = "fst ?p \<or> isUnbounded s"
  have c: "?c\<lparr>tableau := [], varNames := [], basicVars := [], isUnbounded := x\<rparr>
      = s\<lparr>tableau := [], varNames := [], basicVars := [], isUnbounded := x\<rparr>" for x
    using arg_cong [OF createInitialTableau_problem [where s = s and T = "[]" and V = "[]" and B = "[]"],
        of "\<lambda>r. r\<lparr>isUnbounded := x\<rparr>"]
    by simp
  have a: "(snd ?p)\<lparr>tableau := [], varNames := [], basicVars := []\<rparr>
      = s\<lparr>tableau := [], varNames := [], basicVars := [], isUnbounded := ?u\<rparr>"
    by (simp only: pivotLoop_problem createInitialTableau_own_flags c)
  have e: "((snd ?p)\<lparr>isFeasible := f\<rparr>)\<lparr>tableau := [], varNames := [], basicVars := []\<rparr>
      = (s\<lparr>isFeasible := f, isUnbounded := ?u\<rparr>)\<lparr>tableau := [], varNames := [], basicVars := []\<rparr>"
    (is "?L = ?R")
  proof -
    have "?L = ((snd ?p)\<lparr>tableau := [], varNames := [], basicVars := []\<rparr>)\<lparr>isFeasible := f\<rparr>"
      by simp
    also have "\<dots> = (s\<lparr>tableau := [], varNames := [], basicVars := [], isUnbounded := ?u\<rparr>)
                       \<lparr>isFeasible := f\<rparr>"
      by (rule arg_cong [OF a, of "\<lambda>r. r\<lparr>isFeasible := f\<rparr>"])
    also have "\<dots> = ?R"
      by simp
    finally show ?thesis .
  qed
  have "createInitialTableau ((snd ?p)\<lparr>isFeasible := f\<rparr>)
      = createInitialTableau
          (((snd ?p)\<lparr>isFeasible := f\<rparr>)\<lparr>tableau := [], varNames := [], basicVars := []\<rparr>)"
    by (simp only: createInitialTableau_fresh)
  also have "\<dots> = createInitialTableau
          ((s\<lparr>isFeasible := f, isUnbounded := ?u\<rparr>)\<lparr>tableau := [], varNames := [], basicVars := []\<rparr>)"
    by (simp only: e)
  also have "\<dots> = createInitialTableau (s\<lparr>isFeasible := f, isUnbounded := ?u\<rparr>)"
    by (simp only: createInitialTableau_fresh)
  also have "\<dots> = ?c\<lparr>isFeasible := f, isUnbounded := ?u\<rparr>"
    by (rule createInitialTableau_flags)
  finally show ?thesis .
qed

lemma pivotLoop_again:
  "pivotLoop n (createInitialTableau ((snd (pivotLoop n (createInitialTableau s)))\<lparr>isFeasible := f\<rparr>))
     = (fst (pivotLoop n (createInitialTableau s)),
        (snd (pivotLoop n (createInitialTableau s)))\<lparr>isFeasible := f\<rparr>)"
proof -
  let ?c = "createInitialTableau s"
  let ?p = "pivotLoop n ?c"
  have u: "isUnbounded (snd ?p) = (fst ?p \<or> isUnbounded s)"
    by (simp add: pivotLoop_own_flags createInitialTableau_own_flags)
  have "(snd ?p)\<lparr>isFeasible := f, isUnbounded := isUnbounded (snd ?p)\<rparr> = (snd ?p)\<lparr>isFeasible := f\<rparr>"
    by simp
  with u have "(snd ?p)\<lparr>isFeasible := f, isUnbounded := (fst ?p \<or> isUnbounded s)\<rparr>
      = (snd ?p)\<lparr>isFeasible := f\<rparr>"
    by simp
  moreover have "(fst ?p \<or> fst ?p \<or> isUnbounded s) = (fst ?p \<or> isUnbounded s)"
    by blast
  ultimately show ?thesis
    by (simp only: createInitialTableau_again pivotLoop_flags)
qed

lemma solve_again: "solve (fst (solve s)) = solve s"
proof -
  let ?c = "createInitialTableau s"
  let ?p = "pivotLoop maxIterations ?c"
  obtain b s1 where p: "?p = (b, s1)" by (cases ?p)
  have same: "s1\<lparr>isFeasible := isFeasible s1\<rparr> = s1" by simp
  have again: "pivotLoop maxIterations (createInitialTableau (s1\<lparr>isFeasible := f\<rparr>))
      = (b, s1\<lparr>isFeasible := f\<rparr>)" for f
    using pivotLoop_again [where n = maxIterations and s = s and f = f] p by simp
  show ?thesis
  proof (cases b)
    case True
    then have "solve s = (s1, [], 0)"
      using p by (simp add: solve_def)
    moreover have "solve s1 = (s1, [], 0)"
      using again [of "isFeasible s1"] True by (simp add: solve_def)
    ultimately show ?thesis by simp
  next
    case False
    show ?thesis
    proof (cases "artificialCheck s1 [0..<length (basicVars s1)]")
      case True
      then have "solve s = (s1\<lparr>isFeasible := False\<rparr>, [], 0)"
        using p False by (simp add: solve_def finish_def)
      moreover have "solve (s1\<lparr>isFeasible := False\<rparr>) = (s1\<lparr>isFeasible := False\<rparr>, [], 0)"
        using again [of False] False True
        by (simp add: solve_def finish_def artificialCheck_flags)
      ultimately show ?thesis by simp
    next
      case clean: False
      then have "fst (solve s) = s1" "solve s = finish s1"
        using p False by (simp_all add: solve_def finish_def)
      moreover have "solve s1 = finish s1"
        using again [of "isFeasible s1"] False by (simp add: solve_def)
      ultimately show ?thesis by simp
    qed
  qed
qed

text \<open>
  The two output parameters do not depend on what the flags held before the call, and
  the flags come out as those of a call on a new object, except that \<^verbatim>\<open>solve\<close> never
  resets them: \<^verbatim>\<open>isFeasible\<close> stays false and \<^verbatim>\<open>isUnbounded\<close> stays true.
\<close>

lemma artificialCheck_both_flags:
  "artificialCheck (s\<lparr>isFeasible := f, isUnbounded := u\<rparr>) rows = artificialCheck s rows"
  by (induction rows) simp_all

lemma extractSolution_flags:
  "extractSolution (s\<lparr>isFeasible := f, isUnbounded := u\<rparr>) rows out = extractSolution s rows out"
  by (induction rows arbitrary: out) simp_all

lemma finish_flags:
  "snd (finish (s\<lparr>isFeasible := f, isUnbounded := u\<rparr>)) = snd (finish s)"
  by (simp add: finish_def artificialCheck_both_flags extractSolution_flags)

lemma solve_outputs_flags:
  "snd (solve (s\<lparr>isFeasible := f, isUnbounded := u\<rparr>)) = snd (solve s)"
proof -
  obtain b s1 where p: "pivotLoop maxIterations (createInitialTableau s) = (b, s1)"
    by (cases "pivotLoop maxIterations (createInitialTableau s)")
  show ?thesis
    by (cases b) (simp_all add: solve_def createInitialTableau_flags pivotLoop_flags p finish_flags)
qed

lemma solve_outputs_state:
  "snd (solve (s\<lparr>tableau := T, varNames := V, basicVars := B, isFeasible := f, isUnbounded := u\<rparr>))
     = snd (solve s)"
  by (simp only: solve_outputs_flags solve_ignores_scratch)

lemma solve_flags:
  "isFeasible (fst (solve (s\<lparr>isFeasible := f, isUnbounded := u\<rparr>)))
     = (isFeasible (fst (solve (s\<lparr>isFeasible := True, isUnbounded := False\<rparr>))) \<and> f)"
  "isUnbounded (fst (solve (s\<lparr>isFeasible := f, isUnbounded := u\<rparr>)))
     = (isUnbounded (fst (solve (s\<lparr>isFeasible := True, isUnbounded := False\<rparr>))) \<or> u)"
proof -
  obtain b s1 where p: "pivotLoop maxIterations (createInitialTableau s) = (b, s1)"
    by (cases "pivotLoop maxIterations (createInitialTableau s)")
  show "isFeasible (fst (solve (s\<lparr>isFeasible := f, isUnbounded := u\<rparr>)))
     = (isFeasible (fst (solve (s\<lparr>isFeasible := True, isUnbounded := False\<rparr>))) \<and> f)"
    by (cases b)
      (simp_all add: solve_def createInitialTableau_flags pivotLoop_flags p finish_def
        artificialCheck_both_flags)
  show "isUnbounded (fst (solve (s\<lparr>isFeasible := f, isUnbounded := u\<rparr>)))
     = (isUnbounded (fst (solve (s\<lparr>isFeasible := True, isUnbounded := False\<rparr>))) \<or> u)"
    by (cases b)
      (simp_all add: solve_def createInitialTableau_flags pivotLoop_flags p finish_def
        artificialCheck_both_flags)
qed

lemma SimplexSolver_new_flags:
  "(SimplexSolver_new obj cons r types isMax)
      \<lparr>tableau := T, varNames := V, basicVars := B, isFeasible := True, isUnbounded := False\<rparr>
     = (SimplexSolver_new obj cons r types isMax)\<lparr>tableau := T, varNames := V, basicVars := B\<rparr>"
  by (simp add: SimplexSolver_new_def)

lemma solve_flags_new:
  "isFeasible (fst (solve ((SimplexSolver_new obj cons r types isMax)
      \<lparr>tableau := T, varNames := V, basicVars := B, isFeasible := f, isUnbounded := u\<rparr>)))
     = (isFeasible (fst (solve (SimplexSolver_new obj cons r types isMax))) \<and> f)"
  "isUnbounded (fst (solve ((SimplexSolver_new obj cons r types isMax)
      \<lparr>tableau := T, varNames := V, basicVars := B, isFeasible := f, isUnbounded := u\<rparr>)))
     = (isUnbounded (fst (solve (SimplexSolver_new obj cons r types isMax))) \<or> u)"
  by (simp_all only: solve_flags [where s = "(SimplexSolver_new obj cons r types isMax)
        \<lparr>tableau := T, varNames := V, basicVars := B\<rparr>"]
      SimplexSolver_new_flags solve_ignores_scratch)

subsection \<open>The effect of one pass of the main loop\<close>

lemma setStatus_effect:
  assumes "cid \<in> set (map fst (treeNodes st))"
  shows "statusLog (setStatus st cid v) = statusLog st @ [(cid, v)]"
    and "nodeCounter (setStatus st cid v) = nodeCounter st"
    and "iteration (setStatus st cid v) = iteration st"
    and "queue (setStatus st cid v) = queue st"
    and "map fst (treeNodes (setStatus st cid v)) = map fst (treeNodes st)"
    and "status (getNode (treeNodes (setStatus st cid v)) k)
           = (if k = cid then v else status (getNode (treeNodes st) k))"
  using assms
  by (simp_all add: setStatus_def keys_putNode getNode_putNode getNode_putNode_other)

lemma recordInteger_effect:
  assumes "recordInteger sol obj cid st = Some st'"
  shows "statusLog st' = statusLog st \<and> nodeCounter st' = nodeCounter st
    \<and> iteration st' = iteration st \<and> queue st' = queue st
    \<and> map fst (treeNodes st') = map fst (treeNodes st)
    \<and> (\<forall>k. status (getNode (treeNodes st') k) = status (getNode (treeNodes st) k))"
proof (cases "(isMaximization_bb st \<and> obj > bestObjValue st)
         \<or> (\<not> isMaximization_bb st \<and> obj < bestObjValue st)")
  case True
  then have eq: "newBest sol obj (tracePath (treeNodes st) cid []) st = Some st'"
    using assms by (auto simp: recordInteger_def)
  show ?thesis
  proof (cases "tracePath (treeNodes st) cid []")
    case None
    with eq show ?thesis by simp
  next
    case (Some path)
    with eq have "st' = st\<lparr>bestSolution := sol, bestObjValue := obj, optimalPath := path,
              treeNodes := markOptimal path (treeNodes st)\<rparr>"
      by simp
    then show ?thesis
      by (simp add: keys_markOptimal status_markOptimal)
  qed
next
  case False
  then have "st' = st"
    using assms by (auto simp: recordInteger_def)
  then show ?thesis by simp
qed

lemma branch_effect:
  "statusLog (branch current obj cid p st) = statusLog st
    \<and> nodeCounter (branch current obj cid p st) = nodeCounter st
    \<and> iteration (branch current obj cid p st) = iteration st
    \<and> treeNodes (branch current obj cid p st) = treeNodes st
    \<and> list_all (\<lambda>q. q \<in> set (queue st) \<or> parentId_q q = cid)
        (queue (branch current obj cid p st))"
  by (cases p) (simp add: branchItem_def list_all_iff)

lemma classify_effect:
  assumes "classify current sol obj cid st = Some st'"
    and "cid \<in> set (map fst (treeNodes st))"
  shows "\<exists>v. terminalStatus v \<and> statusLog st' = statusLog st @ [(cid, v)]
     \<and> nodeCounter st' = nodeCounter st \<and> iteration st' = iteration st
     \<and> map fst (treeNodes st') = map fst (treeNodes st)
     \<and> (\<forall>k. status (getNode (treeNodes st') k)
            = (if k = cid then v else status (getNode (treeNodes st) k)))
     \<and> list_all (\<lambda>q. q \<in> set (queue st) \<or> parentId_q q = cid) (queue st')"
proof -
  note se = setStatus_effect [OF assms(2)]
  consider (inf) "sol = []"
    | (pruned) "sol \<noteq> []" "(isMaximization_bb st \<and> obj \<le> bestObjValue st)
              \<or> (\<not> isMaximization_bb st \<and> obj \<ge> bestObjValue st)"
    | (integer) "sol \<noteq> []" "\<not> ((isMaximization_bb st \<and> obj \<le> bestObjValue st)
              \<or> (\<not> isMaximization_bb st \<and> obj \<ge> bestObjValue st))" "isIntegerSolution st sol"
    | (branched) "sol \<noteq> []" "\<not> ((isMaximization_bb st \<and> obj \<le> bestObjValue st)
              \<or> (\<not> isMaximization_bb st \<and> obj \<ge> bestObjValue st))" "\<not> isIntegerSolution st sol"
    by blast
  then show ?thesis
  proof cases
    case inf
    then have "st' = setStatus st cid ''INFEASIBLE''"
      using assms(1) by (auto simp: classify_def)
    then show ?thesis
      by (intro exI [of _ "''INFEASIBLE''"]) (simp add: se terminalStatus_def list_all_iff)
  next
    case pruned
    then have "st' = setStatus st cid ''PRUNED''"
      using assms(1) by (auto simp: classify_def)
    then show ?thesis
      by (intro exI [of _ "''PRUNED''"]) (simp add: se terminalStatus_def list_all_iff)
  next
    case integer
    then have "recordInteger sol obj cid (setStatus st cid ''INTEGER'') = Some st'"
      using assms(1) by (auto simp: classify_def)
    from recordInteger_effect [OF this] show ?thesis
      by (intro exI [of _ "''INTEGER''"]) (simp add: se terminalStatus_def list_all_iff)
  next
    case branched
    then have "st' = branch current obj cid (findBranchingVariable st sol)
                       (setStatus st cid ''BRANCHED'')"
      using assms(1) by (auto simp: classify_def)
    then show ?thesis
      using branch_effect [of current obj cid "findBranchingVariable st sol"
          "setStatus st cid ''BRANCHED''"]
      by (intro exI [of _ "''BRANCHED''"]) (simp add: se terminalStatus_def)
  qed
qed

lemma registerNode_effect:
  assumes "0 \<le> nodeCounter st" and "map fst (treeNodes st) = [0..nodeCounter st]"
    and "0 \<le> parentId_q current" and "parentId_q current \<le> nodeCounter st"
  shows "statusLog (registerNode current sol obj st) = statusLog st"
    and "iteration (registerNode current sol obj st) = iteration st"
    and "queue (registerNode current sol obj st) = queue st"
    and "nodeCounter (registerNode current sol obj st)
           = (if depth_q current > 0 then nodeCounter st + 1 else nodeCounter st)"
    and "map fst (treeNodes (registerNode current sol obj st))
           = [0..nodeCounter (registerNode current sol obj st)]"
    and "k \<noteq> nodeCounter st + 1 \<Longrightarrow>
           status (getNode (treeNodes (registerNode current sol obj st)) k)
             = status (getNode (treeNodes st) k)"
proof -
  show "statusLog (registerNode current sol obj st) = statusLog st"
    and "iteration (registerNode current sol obj st) = iteration st"
    and "queue (registerNode current sol obj st) = queue st"
    and "nodeCounter (registerNode current sol obj st)
           = (if depth_q current > 0 then nodeCounter st + 1 else nodeCounter st)"
    by (simp_all add: registerNode_def)
  have fresh: "nodeCounter st + 1 \<notin> set (map fst (treeNodes st))"
    using assms(2) by simp
  have parent: "parentId_q current \<in> set (map fst (putNode (treeNodes st) (nodeCounter st + 1) n))"
    for n
    using assms by (simp add: keys_putNode)
  show "map fst (treeNodes (registerNode current sol obj st))
           = [0..nodeCounter (registerNode current sol obj st)]"
    using assms(1,2) fresh parent
    by (simp add: registerNode_def keys_linkChild keys_putNode upto_rec2)
  show "status (getNode (treeNodes (registerNode current sol obj st)) k)
             = status (getNode (treeNodes st) k)" if "k \<noteq> nodeCounter st + 1"
    using that by (simp add: registerNode_def status_linkChild getNode_putNode_other)
qed

lemma relaxNode_effect:
  assumes "0 \<le> nodeCounter st" and "map fst (treeNodes st) = [0..nodeCounter st]"
    and "0 \<le> parentId_q current" and "parentId_q current \<le> nodeCounter st"
    and "relaxNode current (sol, obj) st = Some st'"
    and "cid = (if depth_q current > 0 then nodeCounter st + 1 else 0)"
  shows "\<exists>v. terminalStatus v
     \<and> nodeCounter st' = (if depth_q current > 0 then nodeCounter st + 1 else nodeCounter st)
     \<and> statusLog st' = statusLog st @ [(cid, v)]
     \<and> iteration st' = iteration st
     \<and> map fst (treeNodes st') = [0..nodeCounter st']
     \<and> (\<forall>k. status (getNode (treeNodes st') k)
            = (if k = cid then v else status (getNode (treeNodes st) k)))
     \<and> list_all (\<lambda>q. q \<in> set (queue st) \<or> parentId_q q = cid) (queue st')"
proof -
  let ?st2 = "registerNode current sol obj st"
  note re = registerNode_effect [OF assms(1-4), where sol = sol and obj = obj]
  have cid: "currentNodeId current ?st2 = cid"
    by (simp add: currentNodeId_def re(4) assms(6))
  have mem: "cid \<in> set (map fst (treeNodes ?st2))"
    using assms(1) by (simp add: re(4,5) assms(6))
  have "classify current sol obj cid ?st2 = Some st'"
    using assms(5) cid by simp
  from classify_effect [OF this mem] obtain v where v:
    "terminalStatus v" "statusLog st' = statusLog ?st2 @ [(cid, v)]"
    "nodeCounter st' = nodeCounter ?st2" "iteration st' = iteration ?st2"
    "map fst (treeNodes st') = map fst (treeNodes ?st2)"
    "\<forall>k. status (getNode (treeNodes st') k)
        = (if k = cid then v else status (getNode (treeNodes ?st2) k))"
    "list_all (\<lambda>q. q \<in> set (queue ?st2) \<or> parentId_q q = cid) (queue st')"
    by blast
  have other: "status (getNode (treeNodes ?st2) k) = status (getNode (treeNodes st) k)"
    if "k \<noteq> cid" for k
  proof (cases "depth_q current > 0")
    case True
    with that assms(6) have "k \<noteq> nodeCounter st + 1" by simp
    then show ?thesis by (rule re(6))
  next
    case False
    then show ?thesis by (simp add: registerNode_def)
  qed
  show ?thesis
    using v other by (intro exI [of _ v]) (simp add: re)
qed

subsection \<open>The invariant holds along the main loop\<close>

lemma mainLoopBody_preserves:
  assumes inv: "searchInvariant st" and body: "mainLoopBody st = Some st'"
  shows "searchInvariant st'"
proof (cases "sortQueue (isMaximization_bb st) [] (queue st)")
  case Nil
  then have "st' = st\<lparr>iteration := iteration st + 1\<rparr>"
    using body by (simp add: mainLoopBody_def)
  then show ?thesis
    using inv by (auto simp: searchInvariant_def split: if_splits)
next
  case (Cons current rest)
  let ?st1 = "st\<lparr>iteration := iteration st + 1, queue := rest\<rparr>"
  have "set (current # rest) = set (queue st)"
    using set_sortQueue [of "isMaximization_bb st" "[]" "queue st"] Cons by simp
  then have qs: "list_all (\<lambda>q. 0 \<le> parentId_q q \<and> parentId_q q \<le> nodeCounter st) (current # rest)"
    using inv by (simp add: searchInvariant_def list_all_iff)
  show ?thesis
  proof (cases "depth_q current = 0 \<and> iteration st + 1 > 1")
    case True
    then have "st' = ?st1"
      using body Cons by (simp add: mainLoopBody_def)
    then show ?thesis
      using inv qs by (auto simp: searchInvariant_def split: if_splits)
  next
    case False
    obtain sol obj where so:
      "solveSubproblem (st\<lparr>iteration := iteration st + 1\<rparr>) (extraCons current)
         (extraRhs current) (extraTypes current) = (sol, obj)"
      by (cases "solveSubproblem (st\<lparr>iteration := iteration st + 1\<rparr>) (extraCons current)
         (extraRhs current) (extraTypes current)")
    have rn: "relaxNode current (sol, obj) ?st1 = Some st'"
      using body Cons False so by (auto simp: mainLoopBody_def simp del: relaxNode.simps)
    define cid where "cid = (if depth_q current > 0 then nodeCounter ?st1 + 1 else 0)"
    have a1: "0 \<le> nodeCounter ?st1" "map fst (treeNodes ?st1) = [0..nodeCounter ?st1]"
      "0 \<le> parentId_q current" "parentId_q current \<le> nodeCounter ?st1"
      using inv qs by (simp_all add: searchInvariant_def)
    from relaxNode_effect [OF a1 rn cid_def] obtain v where v:
      "terminalStatus v"
      "nodeCounter st' = (if depth_q current > 0 then nodeCounter st + 1 else nodeCounter st)"
      "statusLog st' = statusLog st @ [(cid, v)]"
      "iteration st' = iteration st + 1"
      "map fst (treeNodes st') = [0..nodeCounter st']"
      "\<forall>k. status (getNode (treeNodes st') k)
            = (if k = cid then v else status (getNode (treeNodes st) k))"
      "list_all (\<lambda>q. q \<in> set rest \<or> parentId_q q = cid) (queue st')"
      by auto
    have n0: "0 \<le> nodeCounter st" using inv by (simp add: searchInvariant_def)
    have cid_range: "0 \<le> cid \<and> cid \<le> nodeCounter st'"
      using n0 v(2) by (simp add: cid_def)
    have q': "list_all (\<lambda>q. 0 \<le> parentId_q q \<and> parentId_q q \<le> nodeCounter st') (queue st')"
      unfolding list_all_iff
    proof
      fix q assume "q \<in> set (queue st')"
      with v(7) have "q \<in> set rest \<or> parentId_q q = cid"
        by (simp add: list_all_iff)
      then show "0 \<le> parentId_q q \<and> parentId_q q \<le> nodeCounter st'"
      proof
        assume "q \<in> set rest"
        with qs have "0 \<le> parentId_q q \<and> parentId_q q \<le> nodeCounter st"
          by (simp add: list_all_iff)
        with v(2) show ?thesis by (simp split: if_splits)
      next
        assume "parentId_q q = cid"
        with cid_range show ?thesis by simp
      qed
    qed
    have zeros: "length (filter (\<lambda>k. k = 0) (map fst (statusLog st'))) \<le> 2"
    proof (cases "depth_q current > 0")
      case True
      then have "cid \<noteq> 0" using n0 by (simp add: cid_def)
      then show ?thesis
        using inv v(3) by (auto simp: searchInvariant_def split: if_splits)
    next
      case shallow: False
      with False have "iteration st = 0" by simp
      then show ?thesis
        using inv v(3) by (auto simp: searchInvariant_def split: if_splits)
    qed
    have logged: "filter (\<lambda>k. k \<noteq> 0) (map fst (statusLog st')) = [1..nodeCounter st']"
    proof (cases "depth_q current > 0")
      case True
      then have "cid = nodeCounter st + 1" "cid \<noteq> 0" using n0 by (simp_all add: cid_def)
      moreover have "[1..nodeCounter st + 1] = [1..nodeCounter st] @ [nodeCounter st + 1]"
        using n0 by (simp add: upto_rec2)
      ultimately show ?thesis
        using inv v(2,3) True by (simp add: searchInvariant_def)
    next
      case shallow: False
      then show ?thesis
        using inv v(2,3) by (simp add: searchInvariant_def cid_def)
    qed
    have terminal_log: "list_all (\<lambda>e. terminalStatus (snd e)) (statusLog st')"
      using inv v(1,3) by (simp add: searchInvariant_def)
    have terminal_nodes:
      "list_all (\<lambda>k. terminalStatus (status (getNode (treeNodes st') k))) [0..nodeCounter st']"
      unfolding list_all_iff
    proof
      fix k assume k: "k \<in> set [0..nodeCounter st']"
      show "terminalStatus (status (getNode (treeNodes st') k))"
      proof (cases "k = cid")
        case True
        with v(1,6) show ?thesis by simp
      next
        case older: False
        with k v(2) have "k \<in> set [0..nodeCounter st]"
          by (auto simp: cid_def split: if_splits)
        with inv have "terminalStatus (status (getNode (treeNodes st) k))"
          by (simp add: searchInvariant_def list_all_iff)
        with v(6) older show ?thesis by simp
      qed
    qed
    show ?thesis
      using n0 v(2,4,5) q' zeros logged terminal_log terminal_nodes
      by (simp add: searchInvariant_def)
  qed
qed

lemma mainLoop_invariant:
  assumes run: "mainLoop st = Some fin" and inv: "searchInvariant st"
  shows "searchInvariant fin"
proof -
  have "searchInvariant st \<longrightarrow> searchInvariant fin"
  proof (rule mainLoop.raw_induct
      [where P = "\<lambda>x y. searchInvariant x \<longrightarrow> searchInvariant y", OF _ run])
    fix loop :: "BranchAndBound \<Rightarrow> BranchAndBound option" and x y
    assume IH: "\<And>x y. loop x = Some y \<Longrightarrow> searchInvariant x \<longrightarrow> searchInvariant y"
      and eq: "(if queue x = [] then Some x else Option.bind (mainLoopBody x) loop) = Some y"
    show "searchInvariant x \<longrightarrow> searchInvariant y"
    proof (cases "queue x = []")
      case True
      with eq show ?thesis by simp
    next
      case False
      with eq obtain x' where "mainLoopBody x = Some x'" "loop x' = Some y"
        by (auto simp: bind_eq_Some_conv)
      with IH mainLoopBody_preserves show ?thesis by blast
    qed
  qed
  with inv show ?thesis by simp
qed

lemma searchInvariant_single:
  "terminalStatus v \<Longrightarrow> nodeCounter b = 0 \<Longrightarrow> iteration b = 0 \<Longrightarrow> queue b = [] \<Longrightarrow>
   statusLog b = [(0, v)] \<Longrightarrow> map fst (treeNodes b) = [0] \<Longrightarrow>
   status (getNode (treeNodes b) 0) = v \<Longrightarrow> searchInvariant b"
  by (simp add: searchInvariant_def)

subsection \<open>Runs of the small inputs\<close>

lemma small_ilp_run:
  "map_option (\<lambda>fin. (statusLog fin, nodeCounter fin)) (solve_bb small_ilp) =
     Some ([(0, ''BRANCHED''), (0, ''BRANCHED''), (1, ''INTEGER''), (2, ''INFEASIBLE'')], 2)"
  by (simp add: simplex_eval search_eval small_ilp_def)

lemma integral_ilp_root:
  "solveSubproblem integral_ilp [] [] [] = ([2], 2) \<and> isIntegerSolution integral_ilp [2]"
  by (simp add: simplex_eval search_eval integral_ilp_def)

lemma pruning_state_facts:
  shows "sortQueue (isMaximization_bb pruning_state) [] (queue pruning_state) = [left_child_item]"
    and "solveSubproblem pruning_state (extraCons left_child_item) (extraRhs left_child_item)
           (extraTypes left_child_item) = ([1], 1)"
    and "isMaximization_bb pruning_state"
    and "bestObjValue pruning_state = 1"
    and "nodeCounter pruning_state = 0"
    and "statusLog pruning_state = []"
  by (simp_all add: simplex_eval search_eval pruning_state_def small_ilp_def left_child_item_def)

text \<open>
  The child \<open>x1 \<le> 3\<close> of the root of \<open>pure_ilp\<close>: the output and the solver object as
  \<^verbatim>\<open>solve\<close> leaves it.
\<close>

lemma pure_ilp_child_run:
  "relaxation pure_ilp [[1, 0]] [3] [1] = (pure_ilp_child_solved, [3, 2], 23)"
  by (simp add: pure_ilp_def pure_ilp_child_solved_def search_eval simplex_eval)

lemma cycling_lp_run:
  "pivotLoop maxIterations (createInitialTableau cycling_lp) = (False, cycling_stuck)"
  by (simp add: simplex_eval cycling_lp_def cycling_stuck_def)

text \<open>Six pivots on \<open>cycling_lp\<close> lead back to the initial tableau and basis.\<close>

lemma cycling_lp_period:
  "pivotLoop 6 (createInitialTableau cycling_lp) = (False, createInitialTableau cycling_lp)"
  by (simp add: simplex_eval cycling_lp_def)

section \<open>The claims\<close>

text \<open>
  Claim C1. On the pure-ILP scenario of the specification (maximize \<open>5 x1 + 4 x2\<close>
  subject to \<open>x1 + x2 \<le> 5\<close> and \<open>10 x1 + 6 x2 \<le> 45\<close>, both variables integer) the
  branch-and-bound solve comes back with the incumbent \<open>x1 = 3\<close>, \<open>x2 = 2\<close> of objective
  value \<open>23\<close>; the incumbent was found at node 1, whose status is \<^verbatim>\<open>INTEGER\<close> and which
  ends the recorded optimal path; and the final report shows \<open>3\<close>, \<open>2\<close> and \<open>Z = 23\<close>.
\<close>

theorem pure_ilp_optimum:
  "map_option
     (\<lambda>fin. (bestSolution fin, bestObjValue fin, displayFinalSolution fin,
             status (getNode (treeNodes fin) 1), optimalPath fin))
     (solve_bb pure_ilp)
   = Some ([3, 2], 23, Some ([3, 2], 23), ''INTEGER'', [0, 1])"
  by (simp add: simplex_eval search_eval pure_ilp_def)

text \<open>
  Claim C2 says that a row with a negative right-hand side is multiplied by \<open>-1\<close> and its
  relation toggled, so that every row of the initial tableau has a non-negative
  right-hand side. The program does not do this. For maximize \<open>x1\<close> subject to
  \<open>x1 \<le> -1\<close> the constraint row of the initial tableau keeps the coefficient \<open>1\<close>, gets
  the slack column of a \<^verbatim>\<open><=\<close> row and the right-hand side \<open>-1\<close>, and \<^verbatim>\<open>solve\<close> hands back
  \<open>x1 = -1\<close> with both flags untouched, although no point with \<open>x1 \<ge> 0\<close> satisfies the
  constraint.
\<close>

theorem negative_rhs_kept:
  "tableau (createInitialTableau negative_rhs_lp) = [[1, 1, - 1], [- 1, 0, 0]]
   \<and> varNames (createInitialTableau negative_rhs_lp) = [''x1'', ''s1'']
   \<and> basicVars (createInitialTableau negative_rhs_lp) = [1]
   \<and> last (tableau (createInitialTableau negative_rhs_lp) ! 0) < 0
   \<and> snd (solve negative_rhs_lp) = ([- 1], - 1)
   \<and> isFeasible (fst (solve negative_rhs_lp))
   \<and> \<not> isUnbounded (fst (solve negative_rhs_lp))"
  by (simp add: simplex_eval negative_rhs_lp_def)

text \<open>
  Claim C3 says that an unbounded root relaxation ends the whole solve with a status
  \<^verbatim>\<open>UNBOUNDED\<close>, distinct from \<^verbatim>\<open>INFEASIBLE\<close>. For maximize \<open>x1\<close> subject to
  \<open>x1 \<ge> 0\<close> only, the simplex solver does leave through the unbounded return, with
  \<^verbatim>\<open>isUnbounded\<close> set and \<^verbatim>\<open>isFeasible\<close> still true; but the search reads the empty
  solution only, writes the status \<^verbatim>\<open>INFEASIBLE\<close> to the root and reports nothing else.
\<close>

theorem unbounded_root_marked_infeasible:
  "isUnbounded (fst (relaxation unbounded_ilp [] [] []))
   \<and> isFeasible (fst (relaxation unbounded_ilp [] [] []))
   \<and> solveSubproblem unbounded_ilp [] [] [] = ([], 0)
   \<and> map_option
        (\<lambda>fin. (status (getNode (treeNodes fin) 0), statusLog fin, displayFinalSolution fin))
        (solve_bb unbounded_ilp)
      = Some (''INFEASIBLE'', [(0, ''INFEASIBLE'')], None)"
  by (simp add: simplex_eval search_eval unbounded_ilp_def)

text \<open>
  Claim C4 says that a pivoting loop that uses up its 100 passes without reaching
  optimality is reported as such, and not by returning the solution of the tableau it
  stopped on. On \<open>cycling_lp\<close> the pivots repeat with period six
  (\<open>cycling_lp_period\<close>), so the loop runs out of passes, on the solver object
  \<open>cycling_stuck\<close>, whose objective row still has an improving column (column 4);
  \<^verbatim>\<open>solve\<close> then extracts the solution \<open>(0, 0, 0, 0)\<close> with objective \<open>0\<close> from it and
  leaves both flags as for an optimal result, although the point \<open>(1, 0, 1, 0)\<close>
  satisfies the three constraints and has objective \<open>1\<close>.
\<close>

theorem iteration_cap_result_accepted:
  "pivotLoop maxIterations (createInitialTableau cycling_lp) = (False, cycling_stuck)
   \<and> findPivotColumn cycling_stuck = 4
   \<and> solve cycling_lp = (cycling_stuck, [0, 0, 0, 0], 0)
   \<and> isFeasible cycling_stuck \<and> \<not> isUnbounded cycling_stuck
   \<and> objectiveValue (objective cycling_lp) [1, 0, 1, 0] [0..<4] 0 = 1
   \<and> objectiveValue (constraints cycling_lp ! 0) [1, 0, 1, 0] [0..<4] 0 \<le> rhs cycling_lp ! 0
   \<and> objectiveValue (constraints cycling_lp ! 1) [1, 0, 1, 0] [0..<4] 0 \<le> rhs cycling_lp ! 1
   \<and> objectiveValue (constraints cycling_lp ! 2) [1, 0, 1, 0] [0..<4] 0 \<le> rhs cycling_lp ! 2"
  unfolding solve_def cycling_lp_run
  by (simp add: simplex_eval cycling_stuck_def cycling_lp_def)

text \<open>
  Claim C5 says that an artificial variable left in the basis with a value above
  \<^verbatim>\<open>1e-6\<close> makes \<^verbatim>\<open>solve\<close> report infeasibility and return no solution. The check of
  the program looks for the letter a in \<^verbatim>\<open>varNames\<close> at the index of the basic column,
  but \<^verbatim>\<open>varNames\<close> is filled row by row while the columns are grouped by kind. For
  maximize \<open>x1\<close> subject to \<open>x1 \<ge> 5\<close> and \<open>x1 \<le> 2\<close> the artificial variable is column 3
  (the columns before it are \<open>x1\<close>, the slack and the surplus), the loop stops at
  optimality with column 3 basic in row 0 at the value \<open>3\<close>, the name at index 3 is
  \<open>s2\<close>, the check finds nothing, and \<^verbatim>\<open>solve\<close> returns \<open>x1 = 2\<close> with objective \<open>2\<close> and
  \<^verbatim>\<open>isFeasible\<close> still true.
\<close>

theorem artificial_in_basis_overlooked:
  "numVariables infeasible_lp + numSlackOf (constraintTypes infeasible_lp)
     + numSurplusOf (constraintTypes infeasible_lp) = 3
   \<and> (case pivotLoop maxIterations (createInitialTableau infeasible_lp) of
        (unbounded, s) \<Rightarrow>
          (unbounded, findPivotColumn s, basicVars s, varNames s, last (tableau s ! 0),
           artificialCheck s [0..<length (basicVars s)]))
      = (False, - 1, [3, 0], [''x1'', ''e1'', ''a1'', ''s2''], 3, False)
   \<and> snd (solve infeasible_lp) = ([2], 2)
   \<and> isFeasible (fst (solve infeasible_lp))"
  by (simp add: simplex_eval infeasible_lp_def)

text \<open>
  Claim C6. In a pass of the main loop that processes a node (the front item of the
  sorted queue, not the skipped root item) whose relaxation has a solution, if the
  relaxation objective is at most the incumbent objective when maximizing, or at least
  that when minimizing, the pass ends with the node's status \<^verbatim>\<open>PRUNED\<close>, written once;
  the queue is the rest of the sorted queue, so no child is created; and the incumbent is
  unchanged.
\<close>

theorem bound_check_prunes:
  assumes "sortQueue (isMaximization_bb st) [] (queue st) = current # rest"
    and "\<not> (depth_q current = 0 \<and> iteration st + 1 > 1)"
    and "solveSubproblem st (extraCons current) (extraRhs current) (extraTypes current)
           = (sol, obj)"
    and "sol \<noteq> []"
    and "if isMaximization_bb st then obj \<le> bestObjValue st else obj \<ge> bestObjValue st"
  shows "\<exists>st'. mainLoopBody st = Some st'
    \<and> queue st' = rest
    \<and> nodeCounter st' = (if depth_q current > 0 then nodeCounter st + 1 else nodeCounter st)
    \<and> status (getNode (treeNodes st') (if depth_q current > 0 then nodeCounter st + 1 else 0))
        = ''PRUNED''
    \<and> statusLog st'
        = statusLog st @ [(if depth_q current > 0 then nodeCounter st + 1 else 0, ''PRUNED'')]
    \<and> bestSolution st' = bestSolution st \<and> bestObjValue st' = bestObjValue st"
proof -
  have sub: "solveSubproblem (st\<lparr>iteration := iteration st + 1\<rparr>) (extraCons current)
               (extraRhs current) (extraTypes current) = (sol, obj)"
    using assms(3) by (simp add: solveSubproblem_def relaxation_def)
  show ?thesis
    using assms sub
    by (auto simp: mainLoopBody_def classify_def registerNode_def currentNodeId_def
        setStatus_def getNode_putNode)
qed

text \<open>
  Witness for C6: with incumbent objective \<open>1\<close>, the child \<open>x1 \<le> 1\<close> of the root of
  \<open>small_ilp\<close> has relaxation objective \<open>1\<close>; it becomes node 1 with status \<^verbatim>\<open>PRUNED\<close>
  and the queue is empty afterwards.
\<close>

theorem bound_check_prunes_witness:
  "\<exists>st'. mainLoopBody pruning_state = Some st'
     \<and> queue st' = [] \<and> nodeCounter st' = 1
     \<and> status (getNode (treeNodes st') 1) = ''PRUNED''
     \<and> statusLog st' = [(1, ''PRUNED'')]
     \<and> bestSolution st' = bestSolution pruning_state \<and> bestObjValue st' = 1"
proof -
  note f = pruning_state_facts
  have d: "depth_q left_child_item > 0"
    by (simp add: left_child_item_def)
  have "\<exists>st'. mainLoopBody pruning_state = Some st'
    \<and> queue st' = []
    \<and> nodeCounter st' = (if depth_q left_child_item > 0 then nodeCounter pruning_state + 1
                          else nodeCounter pruning_state)
    \<and> status (getNode (treeNodes st')
         (if depth_q left_child_item > 0 then nodeCounter pruning_state + 1 else 0)) = ''PRUNED''
    \<and> statusLog st'
        = statusLog pruning_state
            @ [(if depth_q left_child_item > 0 then nodeCounter pruning_state + 1 else 0, ''PRUNED'')]
    \<and> bestSolution st' = bestSolution pruning_state
    \<and> bestObjValue st' = bestObjValue pruning_state"
  proof (rule bound_check_prunes [where sol = "[1]" and obj = 1])
    show "sortQueue (isMaximization_bb pruning_state) [] (queue pruning_state)
            = left_child_item # []"
      by (rule f(1))
    show "\<not> (depth_q left_child_item = 0 \<and> iteration pruning_state + 1 > 1)"
      using d by simp
    show "solveSubproblem pruning_state (extraCons left_child_item) (extraRhs left_child_item)
            (extraTypes left_child_item) = ([1], 1)"
      by (rule f(2))
    show "[1 :: rat] \<noteq> []" by simp
    show "if isMaximization_bb pruning_state then 1 \<le> bestObjValue pruning_state
          else 1 \<ge> bestObjValue pruning_state"
      by (simp add: f(3,4))
  qed
  then show ?thesis
    by (simp add: f(4,5,6) d)
qed

text \<open>
  Claim C7. If the solution of the root relaxation is integral on all of
  \<^verbatim>\<open>integerVars\<close>, the solve of a freshly entered problem returns at once: the root
  solution and objective are the incumbent, the root's status is \<^verbatim>\<open>INTEGER\<close> (its only
  status write), the root is the only node of the tree and has no children, and the main
  loop has not run (no pass counted, nothing queued).
\<close>

theorem integral_root_returns_at_once:
  assumes "solveSubproblem (BranchAndBound_input isMax obj cons types r ivars) [] [] []
             = (rootSol, rootObj)"
    and "isIntegerSolution (BranchAndBound_input isMax obj cons types r ivars) rootSol"
  shows "\<exists>fin. solve_bb (BranchAndBound_input isMax obj cons types r ivars) = Some fin
    \<and> bestSolution fin = rootSol \<and> bestObjValue fin = rootObj
    \<and> status (getNode (treeNodes fin) 0) = ''INTEGER''
    \<and> isOptimal (getNode (treeNodes fin) 0)
    \<and> optimalPath fin = [0]
    \<and> map fst (treeNodes fin) = [0]
    \<and> leftChild (getNode (treeNodes fin) 0) = - 1
    \<and> rightChild (getNode (treeNodes fin) 0) = - 1
    \<and> queue fin = [] \<and> iteration fin = 0 \<and> nodeCounter fin = 0
    \<and> statusLog fin = [(0, ''INTEGER'')]"
proof -
  from assms(2) have ne: "rootSol \<noteq> []"
    by (auto simp: isIntegerSolution_def)
  show ?thesis
    using assms ne
    by (simp add: solve_bb_def setStatus_def markRootOptimal_def rootNode_def TreeNode_new_def
        BranchAndBound_input_def)
qed

text \<open>
  Witness for C7: maximize \<open>x1\<close> subject to \<open>x1 \<le> 2\<close> with \<open>x1\<close> integer; the root
  relaxation gives \<open>x1 = 2\<close>.
\<close>

theorem integral_root_returns_at_once_witness:
  "solveSubproblem integral_ilp [] [] [] = ([2], 2)
   \<and> isIntegerSolution integral_ilp [2]
   \<and> (\<exists>fin. solve_bb integral_ilp = Some fin
        \<and> bestSolution fin = [2] \<and> bestObjValue fin = 2
        \<and> status (getNode (treeNodes fin) 0) = ''INTEGER''
        \<and> map fst (treeNodes fin) = [0]
        \<and> queue fin = [] \<and> iteration fin = 0
        \<and> statusLog fin = [(0, ''INTEGER'')])"
proof -
  have r: "solveSubproblem (BranchAndBound_input True [1] [[1]] [1] [2] [0]) [] [] [] = ([2], 2)"
    and i: "isIntegerSolution (BranchAndBound_input True [1] [[1]] [1] [2] [0]) [2]"
    using integral_ilp_root by (simp_all add: integral_ilp_def)
  from integral_root_returns_at_once [OF r i] show ?thesis
    using r i by (auto simp: integral_ilp_def)
qed

text \<open>
  Claim C8 says that every node's status is assigned exactly once and that no node is
  visited again by the main loop. This fails for the root. For maximize \<open>x1\<close> subject
  to \<open>2 x1 \<le> 3\<close> with \<open>x1\<close> integer, the root is marked \<^verbatim>\<open>BRANCHED\<close> before the main
  loop, and the first pass of the loop takes the root item, solves the root again and
  writes \<^verbatim>\<open>BRANCHED\<close> to node 0 a second time.
\<close>

theorem root_status_written_twice:
  "\<exists>fin. solve_bb small_ilp = Some fin
     \<and> statusLog fin
         = [(0, ''BRANCHED''), (0, ''BRANCHED''), (1, ''INTEGER''), (2, ''INFEASIBLE'')]
     \<and> \<not> distinct (map fst (statusLog fin))"
proof (cases "solve_bb small_ilp")
  case None
  with small_ilp_run show ?thesis by simp
next
  case (Some fin)
  with small_ilp_run have "statusLog fin
      = [(0, ''BRANCHED''), (0, ''BRANCHED''), (1, ''INTEGER''), (2, ''INFEASIBLE'')]"
    by simp
  with Some show ?thesis by simp
qed

text \<open>
  Claim C8, amended. When the solve of a freshly entered problem returns, the nodes of
  the tree are numbered \<open>0\<close> to \<^verbatim>\<open>nodeCounter\<close>; the status writes to nodes other than
  the root are, in the order they happened, exactly one for each of the nodes \<open>1\<close> to
  \<^verbatim>\<open>nodeCounter\<close>; every status written, and the status every node ends with, is one of
  \<^verbatim>\<open>INFEASIBLE\<close>, \<^verbatim>\<open>PRUNED\<close>, \<^verbatim>\<open>INTEGER\<close> and \<^verbatim>\<open>BRANCHED\<close>; and the root's status is
  written at most twice (once before the main loop, and possibly once more by the pass
  that takes the root item from the queue).
\<close>

theorem status_written_once_below_root:
  assumes "solve_bb (BranchAndBound_input isMax obj cons types r ivars) = Some fin"
  shows "filter (\<lambda>k. k \<noteq> 0) (map fst (statusLog fin)) = [1..nodeCounter fin]
    \<and> map fst (treeNodes fin) = [0..nodeCounter fin]
    \<and> list_all (\<lambda>e. terminalStatus (snd e)) (statusLog fin)
    \<and> list_all (\<lambda>k. terminalStatus (status (getNode (treeNodes fin) k))) [0..nodeCounter fin]
    \<and> length (filter (\<lambda>k. k = 0) (map fst (statusLog fin))) \<le> 2"
proof -
  let ?b = "BranchAndBound_input isMax obj cons types r ivars"
  obtain rootSol rootObj where root: "solveSubproblem ?b [] [] [] = (rootSol, rootObj)"
    by (cases "solveSubproblem ?b [] [] []")
  have "searchInvariant fin"
  proof (cases "rootSol = []")
    case True
    then have "fin = setStatus (?b\<lparr>treeNodes := putNode (treeNodes ?b) 0 (rootNode rootSol rootObj)\<rparr>)
                0 ''INFEASIBLE''"
      using assms root by (simp add: solve_bb_def)
    then show ?thesis
      by (intro searchInvariant_single [of "''INFEASIBLE''"])
        (simp_all add: setStatus_def BranchAndBound_input_def terminalStatus_def)
  next
    case ne: False
    show ?thesis
    proof (cases "isIntegerSolution ?b rootSol")
      case True
      then have "fin = (markRootOptimal
                 (setStatus (?b\<lparr>treeNodes := putNode (treeNodes ?b) 0 (rootNode rootSol rootObj)\<rparr>)
                    0 ''INTEGER''))
                \<lparr>bestSolution := rootSol, bestObjValue := rootObj,
                 optimalPath := optimalPath ?b @ [0]\<rparr>"
        using assms root ne by (simp add: solve_bb_def)
      then show ?thesis
        by (intro searchInvariant_single [of "''INTEGER''"])
          (simp_all add: setStatus_def markRootOptimal_def BranchAndBound_input_def
            terminalStatus_def)
    next
      case False
      let ?st0 = "(setStatus (?b\<lparr>treeNodes := putNode (treeNodes ?b) 0 (rootNode rootSol rootObj)\<rparr>)
              0 ''BRANCHED'')
             \<lparr>bestObjValue := (if isMaximization_bb ?b then - (10 ^ 30) else 10 ^ 30),
              queue := [initialItem rootObj], nodeCounter := 0\<rparr>"
      have "mainLoop ?st0 = Some fin"
        using assms root ne False by (simp add: solve_bb_def)
      moreover have "searchInvariant ?st0"
        by (simp add: searchInvariant_def setStatus_def BranchAndBound_input_def
            terminalStatus_def initialItem_def)
      ultimately show ?thesis by (rule mainLoop_invariant)
    qed
  qed
  then show ?thesis
    by (auto simp: searchInvariant_def split: if_splits)
qed

text \<open>Witness for the amended C8: the run of \<open>small_ilp\<close>, which creates two nodes.\<close>

theorem status_written_once_below_root_witness:
  "\<exists>fin. solve_bb (BranchAndBound_input True [1] [[2]] [1] [3] [0]) = Some fin
     \<and> nodeCounter fin = 2
     \<and> filter (\<lambda>k. k \<noteq> 0) (map fst (statusLog fin)) = [1..nodeCounter fin]
     \<and> map fst (treeNodes fin) = [0..nodeCounter fin]
     \<and> list_all (\<lambda>e. terminalStatus (snd e)) (statusLog fin)
     \<and> list_all (\<lambda>k. terminalStatus (status (getNode (treeNodes fin) k))) [0..nodeCounter fin]
     \<and> length (filter (\<lambda>k. k = 0) (map fst (statusLog fin))) \<le> 2"
proof (cases "solve_bb small_ilp")
  case None
  with small_ilp_run show ?thesis by simp
next
  case (Some fin)
  then have run: "solve_bb (BranchAndBound_input True [1] [[2]] [1] [3] [0]) = Some fin"
    by (simp add: small_ilp_def)
  from Some small_ilp_run have n: "nodeCounter fin = 2"
    by simp
  from status_written_once_below_root [OF run] run n show ?thesis
    by blast
qed

text \<open>
  Claim C9. The relaxation solve is a function of the constraint system alone, with no
  state carried from one call to the next. For two search states that agree on the
  objective, the constraints, the right-hand sides, the relation codes and the direction,
  and the same extra constraints:
  \<^item> the two calls of \<^verbatim>\<open>solveSubproblem\<close> leave equal solver objects (the flags
    \<^verbatim>\<open>isFeasible\<close> and \<^verbatim>\<open>isUnbounded\<close> among their fields) and hand back the same solution
    and objective, whatever else differs between the states (incumbent, tree, queue,
    pass count);
  \<^item> calling \<^verbatim>\<open>solve\<close> a second time on the solver object the first call left behind,
    with its final tableau, names, basis and flags, changes nothing in the object and
    hands back the same solution and objective again;
  \<^item> on a solver object for this system in any state at all (any tableau, names, basis
    and flags), \<^verbatim>\<open>solve\<close> hands back the same solution and objective;
  \<^item> the flags after such a call are those of a call on a new object, except that
    \<^verbatim>\<open>solve\<close> only ever sets \<^verbatim>\<open>isFeasible\<close> to false and \<^verbatim>\<open>isUnbounded\<close> to true: a flag
    that already had that value keeps it. The flags are public members that the program
    writes nowhere else, and \<^verbatim>\<open>solveSubproblem\<close> constructs its solver for the one call.
\<close>

theorem relaxation_deterministic:
  assumes "objective_bb b1 = objective_bb b2"
    and "constraints_bb b1 = constraints_bb b2"
    and "rhs_bb b1 = rhs_bb b2"
    and "constraintTypes_bb b1 = constraintTypes_bb b2"
    and "isMaximization_bb b1 = isMaximization_bb b2"
  shows "relaxation b1 ec er et = relaxation b2 ec er et
    \<and> solve (fst (relaxation b1 ec er et)) = relaxation b2 ec er et
    \<and> snd (solve ((SimplexSolver_new (objective_bb b1)
                (constraints_bb b1 @ map (\<lambda>i. ec ! i) [0..<length ec])
                (rhs_bb b1 @ map (\<lambda>i. er ! i) [0..<length ec])
                (constraintTypes_bb b1 @ map (\<lambda>i. et ! i) [0..<length ec])
                (isMaximization_bb b1))
              \<lparr>tableau := T, varNames := V, basicVars := B, isFeasible := f,
                isUnbounded := u\<rparr>))
        = solveSubproblem b2 ec er et
    \<and> isFeasible (fst (solve ((SimplexSolver_new (objective_bb b1)
                (constraints_bb b1 @ map (\<lambda>i. ec ! i) [0..<length ec])
                (rhs_bb b1 @ map (\<lambda>i. er ! i) [0..<length ec])
                (constraintTypes_bb b1 @ map (\<lambda>i. et ! i) [0..<length ec])
                (isMaximization_bb b1))
              \<lparr>tableau := T, varNames := V, basicVars := B, isFeasible := f,
                isUnbounded := u\<rparr>)))
        = (isFeasible (fst (relaxation b2 ec er et)) \<and> f)
    \<and> isUnbounded (fst (solve ((SimplexSolver_new (objective_bb b1)
                (constraints_bb b1 @ map (\<lambda>i. ec ! i) [0..<length ec])
                (rhs_bb b1 @ map (\<lambda>i. er ! i) [0..<length ec])
                (constraintTypes_bb b1 @ map (\<lambda>i. et ! i) [0..<length ec])
                (isMaximization_bb b1))
              \<lparr>tableau := T, varNames := V, basicVars := B, isFeasible := f,
                isUnbounded := u\<rparr>)))
        = (isUnbounded (fst (relaxation b2 ec er et)) \<or> u)"
proof -
  let ?any = "(SimplexSolver_new (objective_bb b1)
                (constraints_bb b1 @ map (\<lambda>i. ec ! i) [0..<length ec])
                (rhs_bb b1 @ map (\<lambda>i. er ! i) [0..<length ec])
                (constraintTypes_bb b1 @ map (\<lambda>i. et ! i) [0..<length ec])
                (isMaximization_bb b1))
              \<lparr>tableau := T, varNames := V, basicVars := B, isFeasible := f,
                isUnbounded := u\<rparr>"
  have same: "relaxation b1 ec er et = relaxation b2 ec er et"
    by (simp add: relaxation_def assms)
  have again: "solve (fst (relaxation b1 ec er et)) = relaxation b1 ec er et"
    unfolding relaxation_def by (rule solve_again)
  have outputs: "snd (solve ?any) = solveSubproblem b1 ec er et"
    unfolding solveSubproblem_def relaxation_def by (rule solve_outputs_state)
  have feasible: "isFeasible (fst (solve ?any)) = (isFeasible (fst (relaxation b1 ec er et)) \<and> f)"
    unfolding relaxation_def by (rule solve_flags_new(1))
  have unbounded:
    "isUnbounded (fst (solve ?any)) = (isUnbounded (fst (relaxation b1 ec er et)) \<or> u)"
    unfolding relaxation_def by (rule solve_flags_new(2))
  have sub: "solveSubproblem b1 ec er et = solveSubproblem b2 ec er et"
    by (simp only: solveSubproblem_def same)
  show ?thesis
    by (simp only: same [symmetric] sub [symmetric] again outputs feasible unbounded simp_thms)
qed

text \<open>
  Witness for C9: the child \<open>x1 \<le> 3\<close> of the scenario of the specification, and the same
  problem in a search state with another incumbent, pass count and queue. The call in
  the other state leaves the solver object \<open>pure_ilp_child_solved\<close> and hands back
  \<open>x = (3, 2)\<close> and \<open>23\<close>; solving again on that very object does the same;
  \<open>pure_ilp_child_stale\<close>, a solver for the same system that holds a foreign tableau,
  names and basis, with \<^verbatim>\<open>isFeasible\<close> false and \<^verbatim>\<open>isUnbounded\<close> true, hands back
  \<open>x = (3, 2)\<close> and \<open>23\<close> all the same, and keeps the two flags as they were.
\<close>

theorem relaxation_deterministic_witness:
  "relaxation (pure_ilp\<lparr>bestSolution := [3, 2], bestObjValue := 23, iteration := 7,
                 queue := [left_child_item], nodeCounter := 4\<rparr>) [[1, 0]] [3] [1]
     = (pure_ilp_child_solved, [3, 2], 23)
   \<and> solve pure_ilp_child_solved = (pure_ilp_child_solved, [3, 2], 23)
   \<and> snd (solve pure_ilp_child_stale) = ([3, 2], 23)
   \<and> \<not> isFeasible (fst (solve pure_ilp_child_stale))
   \<and> isUnbounded (fst (solve pure_ilp_child_stale))"
proof -
  let ?other = "pure_ilp\<lparr>bestSolution := [3, 2], bestObjValue := 23, iteration := 7,
                  queue := [left_child_item], nodeCounter := 4\<rparr>"
  let ?any = "(SimplexSolver_new (objective_bb pure_ilp)
                (constraints_bb pure_ilp @ map (\<lambda>i. [[1, 0]] ! i) [0..<length [[1, 0::rat]]])
                (rhs_bb pure_ilp @ map (\<lambda>i. [3] ! i) [0..<length [[1, 0::rat]]])
                (constraintTypes_bb pure_ilp @ map (\<lambda>i. [1] ! i) [0..<length [[1, 0::rat]]])
                (isMaximization_bb pure_ilp))
              \<lparr>tableau := [[1, 7], [0, 2]], varNames := [''a1''], basicVars := [0, 0],
                isFeasible := False, isUnbounded := True\<rparr>"
  have new: "?any = pure_ilp_child_stale"
    by (simp add: pure_ilp_def BranchAndBound_input_def pure_ilp_child_stale_def)
  have inst: "relaxation pure_ilp [[1, 0]] [3] [1] = relaxation ?other [[1, 0]] [3] [1]
    \<and> solve (fst (relaxation pure_ilp [[1, 0]] [3] [1])) = relaxation ?other [[1, 0]] [3] [1]
    \<and> snd (solve ?any) = solveSubproblem ?other [[1, 0]] [3] [1]
    \<and> isFeasible (fst (solve ?any))
        = (isFeasible (fst (relaxation ?other [[1, 0]] [3] [1])) \<and> False)
    \<and> isUnbounded (fst (solve ?any))
        = (isUnbounded (fst (relaxation ?other [[1, 0]] [3] [1])) \<or> True)"
    by (rule relaxation_deterministic) (simp_all add: pure_ilp_def BranchAndBound_input_def)
  from inst have "relaxation pure_ilp [[1, 0]] [3] [1] = relaxation ?other [[1, 0]] [3] [1]"
    by (rule conjunct1)
  then have same: "relaxation ?other [[1, 0]] [3] [1] = (pure_ilp_child_solved, [3, 2], 23)"
    by (rule trans [OF sym pure_ilp_child_run])
  have "solve pure_ilp_child_solved = (pure_ilp_child_solved, [3, 2], 23)
      \<and> snd (solve pure_ilp_child_stale) = ([3, 2], 23)
      \<and> \<not> isFeasible (fst (solve pure_ilp_child_stale))
      \<and> isUnbounded (fst (solve pure_ilp_child_stale))"
    using inst
    unfolding new pure_ilp_child_run solveSubproblem_def same fst_conv snd_conv simp_thms
    by blast
  with same show ?thesis
    by blast
qed

text \<open>
  Claim C10. For a non-empty solution vector with at least \<^verbatim>\<open>numVariables\<close> entries
  (and \<^verbatim>\<open>integerVars\<close> holding variable indices, as \<^verbatim>\<open>getUserInput\<close> leaves it), if
  \<^verbatim>\<open>isIntegerSolution\<close> is false then \<^verbatim>\<open>findBranchingVariable\<close> sets \<^verbatim>\<open>varIdx\<close> to an
  index from \<open>0\<close> to below \<^verbatim>\<open>numVariables\<close>, so that the write \<^verbatim>\<open>coef[varIdx] = 1.0\<close> of
  the branching step is within the vector of \<^verbatim>\<open>numVariables\<close> entries; and if
  \<^verbatim>\<open>isIntegerSolution\<close> is true it leaves \<^verbatim>\<open>varIdx\<close> at \<open>-1\<close>.
\<close>

theorem branching_variable_in_bounds:
  "(sol \<noteq> [] \<and> numVariables_bb b \<le> length sol
      \<and> list_all (\<lambda>v. v < numVariables_bb b) (integerVars b)
      \<and> \<not> isIntegerSolution b sol
    \<longrightarrow> 0 \<le> fst (findBranchingVariable b sol)
        \<and> fst (findBranchingVariable b sol) < int (numVariables_bb b)
        \<and> nat (fst (findBranchingVariable b sol))
            < length (replicate (numVariables_bb b) (0 :: rat)))
   \<and> (isIntegerSolution b sol \<longrightarrow> fst (findBranchingVariable b sol) = - 1)"
proof (intro conjI impI)
  assume h: "sol \<noteq> [] \<and> numVariables_bb b \<le> length sol
      \<and> list_all (\<lambda>v. v < numVariables_bb b) (integerVars b)
      \<and> \<not> isIntegerSolution b sol"
  then have "\<not> allIntegral (integerVars b) sol"
    by (auto simp: isIntegerSolution_def)
  with h have r: "0 \<le> fst (firstFractional (integerVars b) sol)
      \<and> fst (firstFractional (integerVars b) sol) < int (numVariables_bb b)"
    using firstFractional_in_range by blast
  from r show "0 \<le> fst (findBranchingVariable b sol)"
    by (simp add: findBranchingVariable_def)
  from r show "fst (findBranchingVariable b sol) < int (numVariables_bb b)"
    by (simp add: findBranchingVariable_def)
  from r show "nat (fst (findBranchingVariable b sol))
      < length (replicate (numVariables_bb b) (0 :: rat))"
    by (simp add: findBranchingVariable_def nat_less_iff)
next
  assume "isIntegerSolution b sol"
  then have "allIntegral (integerVars b) sol"
    by (simp add: isIntegerSolution_def split: if_splits)
  then show "fst (findBranchingVariable b sol) = - 1"
    by (simp add: findBranchingVariable_def firstFractional_integral)
qed

text \<open>
  Witness for C10: on the scenario of the specification, the root solution
  \<open>(15/4, 5/4)\<close> is not integral and the branching variable is \<open>x1\<close> (index 0); the
  solution \<open>(3, 2)\<close> is integral and \<^verbatim>\<open>varIdx\<close> stays \<open>-1\<close>.
\<close>

theorem branching_variable_in_bounds_witness:
  "[15 / 4, 5 / 4 :: rat] \<noteq> [] \<and> numVariables_bb pure_ilp \<le> length [15 / 4, 5 / 4 :: rat]
   \<and> list_all (\<lambda>v. v < numVariables_bb pure_ilp) (integerVars pure_ilp)
   \<and> \<not> isIntegerSolution pure_ilp [15 / 4, 5 / 4]
   \<and> findBranchingVariable pure_ilp [15 / 4, 5 / 4] = (0, 15 / 4)
   \<and> fst (findBranchingVariable pure_ilp [15 / 4, 5 / 4]) < int (numVariables_bb pure_ilp)
   \<and> isIntegerSolution pure_ilp [3, 2]
   \<and> fst (findBranchingVariable pure_ilp [3, 2]) = - 1"
proof -
  have h: "[15 / 4, 5 / 4 :: rat] \<noteq> [] \<and> numVariables_bb pure_ilp \<le> length [15 / 4, 5 / 4 :: rat]
      \<and> list_all (\<lambda>v. v < numVariables_bb pure_ilp) (integerVars pure_ilp)
      \<and> \<not> isIntegerSolution pure_ilp [15 / 4, 5 / 4]"
    by (simp add: search_eval pure_ilp_def)
  have i: "isIntegerSolution pure_ilp [3, 2]"
    by (simp add: search_eval pure_ilp_def)
  have v: "findBranchingVariable pure_ilp [15 / 4, 5 / 4] = (0, 15 / 4)"
    by (simp add: search_eval pure_ilp_def)
  from branching_variable_in_bounds [of "[15 / 4, 5 / 4]" pure_ilp] h
  have "fst (findBranchingVariable pure_ilp [15 / 4, 5 / 4]) < int (numVariables_bb pure_ilp)"
    by blast
  moreover from branching_variable_in_bounds [of "[3, 2]" pure_ilp] i
  have "fst (findBranchingVariable pure_ilp [3, 2]) = - 1"
    by blast
  ultimately show ?thesis
    using h i v by blast
qed

end
